theory Spec2Isabelle
  imports Complex_Main
begin

section \<open>Python values shared by both classes\<close>

text \<open>
  The exceptions the modelled code can raise. \<open>AssertionError\<close>, \<open>KeyError\<close>,
  \<open>ValueError\<close>, \<open>ZeroDivisionError\<close>, \<open>IndexError\<close>, \<open>AttributeError\<close> are Python's own;
  \<open>RuntimeError\<close> is what torch raises on a bad shape or chunk count.
  \<open>SchemaError\<close>, \<open>ConfigError\<close> and \<open>RangeError\<close> are the classes of the specification's
  error taxonomy: they are part of the type so that statements can name them, and no
  definition below ever constructs one, as no line of the source raises one.
\<close>

datatype error =
    AssertionError
  | KeyError
  | ValueError
  | ZeroDivisionError
  | IndexError
  | AttributeError
  | RuntimeError
  | SchemaError
  | ConfigError
  | RangeError

text \<open>
  Python slices \<open>xs[:k]\<close> and \<open>xs[k:]\<close>: a negative \<open>k\<close> counts from the end, and an
  index beyond either end is clamped, never an error.
\<close>

definition slice_to :: "'a list \<Rightarrow> int \<Rightarrow> 'a list" where
  "slice_to xs k =
     (if 0 \<le> k then take (nat k) xs else take (nat (int (length xs) + k)) xs)"

definition slice_from :: "'a list \<Rightarrow> int \<Rightarrow> 'a list" where
  "slice_from xs k =
     (if 0 \<le> k then drop (nat k) xs else drop (nat (int (length xs) + k)) xs)"

text \<open>
  Python indexing of a tuple or list: a negative index counts from the end, and an index
  outside \<open>[-n, n)\<close> raises \<open>IndexError\<close>.
\<close>

definition py_index :: "'a list \<Rightarrow> int \<Rightarrow> error + 'a" where
  "py_index xs i =
     (if 0 \<le> i \<and> i < int (length xs) then Inr (xs ! nat i)
      else if i < 0 \<and> - int (length xs) \<le> i then Inr (xs ! nat (int (length xs) + i))
      else Inl IndexError)"

text \<open>
  Python dictionaries keep insertion order: an association list with distinct keys.
  \<open>dict_set\<close> is \<open>d[k] = v\<close> (in place for a key that is present, appended otherwise),
  \<open>dict_get\<close> is \<open>d[k]\<close> and \<open>dict_pop\<close> is \<open>d.pop(k)\<close>, both raising \<open>KeyError\<close>
  on a missing key.
\<close>

fun dict_set :: "string \<Rightarrow> 'v \<Rightarrow> (string \<times> 'v) list \<Rightarrow> (string \<times> 'v) list" where
  "dict_set k v [] = [(k, v)]"
| "dict_set k v ((k', v') # d) = (if k' = k then (k, v) # d else (k', v') # dict_set k v d)"

fun dict_get :: "(string \<times> 'v) list \<Rightarrow> string \<Rightarrow> error + 'v" where
  "dict_get [] k = Inl KeyError"
| "dict_get ((k', v') # d) k = (if k' = k then Inr v' else dict_get d k)"

fun dict_pop :: "string \<Rightarrow> (string \<times> 'v) list \<Rightarrow> error + ('v \<times> (string \<times> 'v) list)" where
  "dict_pop k [] = Inl KeyError"
| "dict_pop k ((k', v') # d) =
     (if k' = k then Inr (v', d)
      else (case dict_pop k d of
              Inl e \<Rightarrow> Inl e
            | Inr (v, d') \<Rightarrow> Inr (v, (k', v') # d')))"

section \<open>Tensors\<close>

text \<open>
  The integer tensors of a batch: a 1-D tensor (one entry per example, such as
  \<open>next_sentence_label\<close>) or a 2-D tensor. \<open>Tensor2 s rows\<close> has shape
  \<open>(length rows, s)\<close>; the sequence length is carried explicitly, since a tensor with no
  rows still has one. A tensor is well shaped when every row has that length.
\<close>

datatype tensor = Tensor1 "int list" | Tensor2 nat "int list list"

fun tensor_dim :: "tensor \<Rightarrow> nat" where
  "tensor_dim (Tensor1 xs) = 1"
| "tensor_dim (Tensor2 s rows) = 2"

definition well_shaped :: "tensor \<Rightarrow> bool" where
  "well_shaped t =
     (case t of Tensor1 xs \<Rightarrow> True | Tensor2 s rows \<Rightarrow> list_all (\<lambda>r. length r = s) rows)"

text \<open>
  \<open>torch.full([batch_size, n], fill_value)\<close>: a negative dimension is a \<open>RuntimeError\<close>.
\<close>

definition torch_full :: "nat \<Rightarrow> int \<Rightarrow> int \<Rightarrow> error + tensor" where
  "torch_full batch_size n fill_value =
     (if n < 0 then Inl RuntimeError
      else Inr (Tensor2 (nat n) (replicate batch_size (replicate (nat n) fill_value))))"

text \<open>
  \<open>torch.cat(tensors, axis=1)\<close>: the rows of the tensors joined side by side. An empty
  list and a mismatch of the batch sizes are \<open>RuntimeError\<close>s; a 1-D tensor has no
  axis 1 (\<open>IndexError\<close>).
\<close>

definition cat2 :: "tensor \<Rightarrow> tensor \<Rightarrow> error + tensor" where
  "cat2 a b =
     (case (a, b) of
        (Tensor2 sa rows_a, Tensor2 sb rows_b) \<Rightarrow>
          (if length rows_a = length rows_b
           then Inr (Tensor2 (sa + sb) (map2 (@) rows_a rows_b))
           else Inl RuntimeError)
      | _ \<Rightarrow> Inl IndexError)"

fun torch_cat :: "tensor list \<Rightarrow> error + tensor" where
  "torch_cat [] = Inl RuntimeError"
| "torch_cat [t] = (case t of Tensor1 xs \<Rightarrow> Inl IndexError | Tensor2 s rows \<Rightarrow> Inr t)"
| "torch_cat (t # ts) =
     (case torch_cat ts of Inl e \<Rightarrow> Inl e | Inr rest \<Rightarrow> cat2 t rest)"

text \<open>
  \<open>value.chunk(chunks, dim=1)\<close>, as torch defines it: \<open>chunks \<le> 0\<close> is a
  \<open>RuntimeError\<close>; the pieces have \<open>split_size = ceil(s / chunks)\<close> columns each (the
  last one what is left), so there are \<open>ceil(s / split_size)\<close> of them; a tensor with no
  columns gives \<open>chunks\<close> empty pieces.
\<close>

definition torch_chunk :: "tensor \<Rightarrow> int \<Rightarrow> error + tensor list" where
  "torch_chunk t chunks =
     (case t of
        Tensor1 xs \<Rightarrow> Inl IndexError
      | Tensor2 s rows \<Rightarrow>
          (if chunks \<le> 0 then Inl RuntimeError
           else
             (let split_size = (s + nat chunks - 1) div nat chunks in
              if split_size = 0
              then Inr (replicate (nat chunks) (Tensor2 0 (map (\<lambda>r. []) rows)))
              else Inr (map (\<lambda>i. Tensor2 (min split_size (s - i * split_size))
                                  (map (\<lambda>r. take split_size (drop (i * split_size) r)) rows))
                          [0..<(s + split_size - 1) div split_size]))))"

section \<open>Collaborators\<close>

text \<open>
  One example as \<open>_prepare_wwm_and_sop_from_examples\<close> builds it: the dictionary literal
  of lines 134 to 139, with exactly these four keys.
\<close>

record example =
  input_ids :: "int list"
  token_type_ids :: "int list"
  next_sentence_label :: int
  mask_label :: "int list"

text \<open>
  The tokenizer is an external collaborator (a HuggingFace tokenizer). The record holds
  the capabilities the two classes use: \<open>tokenize t\<close> is the entry for text \<open>t\<close> of
  \<open>self._tokenizer(texts, padding=False, truncation=False, ...)["input_ids"]\<close>, and
  \<open>pad examples m\<close> is \<open>self.tokenizer.pad(examples, return_tensors="pt",
  pad_to_multiple_of=m)\<close>, a dictionary of tensors. A HuggingFace tokenizer cannot encode
  an empty list of texts: \<open>empty_batch_error\<close> is the exception it raises then
  (\<open>IndexError\<close> for the fast tokenizers, \<open>ValueError\<close> for the slow ones).
\<close>

record tokenizer =
  tokenize :: "string \<Rightarrow> int list"
  sep_token_id :: int
  pad_token_id :: int
  build_inputs_with_special_tokens :: "int list \<Rightarrow> int list \<Rightarrow> int list"
  create_token_type_ids_from_sequences :: "int list \<Rightarrow> int list \<Rightarrow> int list"
  convert_ids_to_tokens :: "int list \<Rightarrow> string list"
  pad :: "example list \<Rightarrow> int option \<Rightarrow> error + (string \<times> tensor) list"
  empty_batch_error :: error

text \<open>
  The two methods the collator inherits from \<open>transformers.DataCollatorForWholeWordMask\<close>.
  Both draw random numbers; the draw is their first argument.
\<close>

record whole_word_mask_base =
  whole_word_mask :: "nat \<Rightarrow> string list \<Rightarrow> int list"
  torch_mask_tokens :: "nat \<Rightarrow> tensor \<Rightarrow> tensor \<Rightarrow> error + (tensor \<times> tensor)"

text \<open>
  Modelled from the spec: \<open>ParallelContext\<close> (\<open>oslo.torch.distributed\<close>) is not among the
  sources. Per the specification the parallel-context capability supplies the local rank
  and the world size of the sequence-parallel group; the record holds what
  \<open>get_local_rank(ParallelMode.SEQUENCE)\<close> and \<open>get_world_size(ParallelMode.SEQUENCE)\<close>
  return.
\<close>

record ParallelContext =
  get_local_rank :: int
  get_world_size :: int

text \<open>
  The random choices made for one example, in the order the code draws them:
  \<open>pick\<close> is the randomness \<open>random.randrange\<close> consumes, \<open>coin\<close> is the outcome of
  \<open>random.random() < 0.5\<close>, \<open>mask_draw\<close> is what \<open>_whole_word_mask\<close> consumes. A random
  source gives the draws of the i-th example of a call and the draw of
  \<open>torch_mask_tokens\<close>.
\<close>

record draw =
  pick :: nat
  coin :: bool
  mask_draw :: nat

record random_source =
  example_draws :: "nat \<Rightarrow> draw"
  torch_draw :: nat

text \<open>
  \<open>random.randrange(start, stop)\<close>: an element of \<open>[start, stop)\<close>, every one of which
  some \<open>pick\<close> selects; an empty range raises \<open>ValueError\<close>.
\<close>

definition randrange :: "nat \<Rightarrow> int \<Rightarrow> int \<Rightarrow> error + int" where
  "randrange pk start stop =
     (if start < stop then Inr (start + int (pk mod nat (stop - start)))
      else Inl ValueError)"

section \<open>ProcessorForBertPretraining\<close>

record processor =
  proc_tokenizer :: tokenizer
  max_length :: int
  chunk_size :: int
  buffer :: "int list"

text \<open>
  Modelled from the spec: the base class \<open>BaseProcessor\<close> (\<open>oslo/transformers/tasks/data_base.py\<close>)
  is not among the sources. Per the specification the token buffer is created empty at
  processor construction and the processor owns a tokenizer; the tokenizer that
  \<open>model_name_or_path\<close> would load is passed in directly. Line 17 of the source is the
  \<open>chunk_size\<close> field.
\<close>

definition ProcessorForBertPretraining_init :: "tokenizer \<Rightarrow> int \<Rightarrow> processor" where
  "ProcessorForBertPretraining_init tok ml =
     \<lparr> proc_tokenizer = tok, max_length = ml, chunk_size = ml - 3, buffer = [] \<rparr>"

text \<open>
  The inner loop (lines 40 to 43):
  \<^verbatim>\<open>
  while len(self._buffer) >= self._chunk_size:
      chunk_ids = self._buffer[: self._chunk_size]
      dict_of_training_examples["input_ids"].append(chunk_ids)
      self._buffer = self._buffer[self._chunk_size :]
  \<close>
  Nothing bounds \<open>chunk_size\<close> from below, and with \<open>chunk_size \<le> 0\<close> the condition
  never turns false, so the loop is a partial function: \<open>None\<close> is "does not return".
\<close>

partial_function (option) drain ::
  "int \<Rightarrow> int list \<Rightarrow> int list list \<Rightarrow> (int list list \<times> int list) option" where
  "drain cs buf out =
     (if cs \<le> int (length buf)
      then drain cs (slice_from buf cs) (out @ [slice_to buf cs])
      else Some (out, buf))"

declare drain.simps [code]

text \<open>
  The outer loop (lines 36 to 38): each tokenized text gets the separator id appended and
  extends the buffer, then the inner loop runs.
\<close>

fun feed ::
  "int \<Rightarrow> int \<Rightarrow> int list list \<Rightarrow> int list \<Rightarrow> int list list \<Rightarrow>
   (int list list \<times> int list) option" where
  "feed cs sep [] buf out = Some (out, buf)"
| "feed cs sep (ids # rest) buf out =
     (case drain cs (buf @ (ids @ [sep])) out of
        None \<Rightarrow> None
      | Some (out', buf') \<Rightarrow> feed cs sep rest buf' out')"

text \<open>
  A dataset batch maps a column name to the column's values; the returned dictionary maps
  a key to a list of chunks.
\<close>

type_synonym batch = "string \<rightharpoonup> string list"
type_synonym training_examples = "string \<rightharpoonup> int list list"

text \<open>
  Lines 27 to 34: the tokenizer applied to the whole \<open>text\<close> column, one id list per
  text.
\<close>

definition batch_input_ids :: "tokenizer \<Rightarrow> string list \<Rightarrow> error + int list list" where
  "batch_input_ids tok texts =
     (if texts = [] then Inl (empty_batch_error tok) else Inr (map (tokenize tok) texts))"

text \<open>
  \<open>__call__\<close> (lines 19 to 45). The result pairs what the call returns or raises with the
  processor after the call; \<open>None\<close> is a call that never returns.
\<close>

definition ProcessorForBertPretraining_call ::
  "processor \<Rightarrow> batch \<Rightarrow> ((error + training_examples) \<times> processor) option" where
  "ProcessorForBertPretraining_call p examples =
     (case examples ''text'' of
        None \<Rightarrow> Some (Inl AssertionError, p)
      | Some texts \<Rightarrow>
          (case batch_input_ids (proc_tokenizer p) texts of
             Inl e \<Rightarrow> Some (Inl e, p)
           | Inr list_of_input_ids \<Rightarrow>
               (case feed (chunk_size p) (sep_token_id (proc_tokenizer p))
                       list_of_input_ids (buffer p) [] of
                  None \<Rightarrow> None
                | Some (out, buf) \<Rightarrow>
                    Some (Inr [''input_ids'' \<mapsto> out], p\<lparr>buffer := buf\<rparr>))))"

text \<open>Consecutive calls on one instance, each on the state the previous one left.\<close>

fun run_calls ::
  "processor \<Rightarrow> batch list \<Rightarrow> ((error + training_examples) list \<times> processor) option" where
  "run_calls p [] = Some ([], p)"
| "run_calls p (examples # rest) =
     (case ProcessorForBertPretraining_call p examples of
        None \<Rightarrow> None
      | Some (r, p') \<Rightarrow>
          (case run_calls p' rest of
             None \<Rightarrow> None
           | Some (rs, p'') \<Rightarrow> Some (r # rs, p'')))"

text \<open>
  The vocabulary of the conservation property: the ids one call emits, in emission
  order, and the id stream one batch contributes (each text's ids, then the separator).
\<close>

definition emitted :: "error + training_examples \<Rightarrow> int list" where
  "emitted r =
     (case r of
        Inl e \<Rightarrow> []
      | Inr d \<Rightarrow> (case d ''input_ids'' of None \<Rightarrow> [] | Some chunks \<Rightarrow> concat chunks))"

definition batch_stream :: "tokenizer \<Rightarrow> batch \<Rightarrow> int list" where
  "batch_stream tok examples =
     (case examples ''text'' of
        None \<Rightarrow> []
      | Some texts \<Rightarrow> concat (map (\<lambda>t. tokenize tok t @ [sep_token_id tok]) texts))"

section \<open>DataCollatorForBertPretraining\<close>

text \<open>
  The attributes \<open>__init__\<close> sets (lines 60 to 67). \<open>local_rank\<close> and
  \<open>local_world_size\<close> exist only when a parallel context was given. \<open>base\<close> stands for
  the inherited methods.
\<close>

record collator =
  coll_tokenizer :: tokenizer
  mlm_probability :: real
  pad_to_multiple_of :: "int option"
  coll_pad_token_id :: int
  parallel_context :: "ParallelContext option"
  local_rank :: "int option"
  local_world_size :: "int option"
  base :: whole_word_mask_base

text \<open>
  \<open>__init__\<close> (lines 53 to 67). The body has no check and no \<open>raise\<close>: the result is
  always a collator.
\<close>

definition DataCollatorForBertPretraining_init ::
  "whole_word_mask_base \<Rightarrow> processor \<Rightarrow> real \<Rightarrow> int option \<Rightarrow> ParallelContext option \<Rightarrow>
   error + collator" where
  "DataCollatorForBertPretraining_init b processor mlm_prob multiple pc =
     Inr \<lparr> coll_tokenizer = proc_tokenizer processor,
           mlm_probability = mlm_prob,
           pad_to_multiple_of = multiple,
           coll_pad_token_id = pad_token_id (proc_tokenizer processor),
           parallel_context = pc,
           local_rank = (case pc of None \<Rightarrow> None | Some ctx \<Rightarrow> Some (get_local_rank ctx)),
           local_world_size = (case pc of None \<Rightarrow> None | Some ctx \<Rightarrow> Some (get_world_size ctx)),
           base = b \<rparr>"

subsection \<open>Stage A: one example per chunk\<close>

text \<open>
  Lines 114 to 117: the chunk is \<open>example["input_ids"]\<close>, and the split position is drawn
  from \<open>[n // 3, n // 3 * 2)\<close>. Python's \<open>//\<close> and \<open>%\<close> on integers are HOL's \<open>div\<close>
  and \<open>mod\<close> on \<open>int\<close> (both round towards minus infinity).
\<close>

definition choose_split :: "nat \<Rightarrow> int list \<Rightarrow> error + int" where
  "choose_split pk chunk_ids =
     (let seq_length = int (length chunk_ids);
          start = seq_length div 3;
          stop = seq_length div 3 * 2
      in randrange pk start stop)"

text \<open>Lines 120 to 125: the two segments, \<open>(token_a, token_b)\<close>.\<close>

definition segments :: "bool \<Rightarrow> int \<Rightarrow> int list \<Rightarrow> int list \<times> int list" where
  "segments reverse split_position chunk_ids =
     (if reverse
      then (slice_from chunk_ids split_position, slice_to chunk_ids split_position)
      else (slice_to chunk_ids split_position, slice_from chunk_ids split_position))"

text \<open>The body of the loop of \<open>_prepare_wwm_and_sop_from_examples\<close> (lines 114 to 140).\<close>

definition prepare_example ::
  "collator \<Rightarrow> draw \<Rightarrow> (string \<rightharpoonup> int list) \<Rightarrow> error + example" where
  "prepare_example c d ex =
     (case ex ''input_ids'' of
        None \<Rightarrow> Inl KeyError
      | Some chunk_ids \<Rightarrow>
          (case choose_split (pick d) chunk_ids of
             Inl e \<Rightarrow> Inl e
           | Inr split_position \<Rightarrow>
               (let reverse = coin d;
                    (token_a, token_b) = segments reverse split_position chunk_ids;
                    ids = build_inputs_with_special_tokens (coll_tokenizer c) token_a token_b;
                    types = create_token_type_ids_from_sequences (coll_tokenizer c) token_a token_b;
                    sentence_order_label = (if reverse then 1 else 0);
                    ref_tokens = convert_ids_to_tokens (coll_tokenizer c) ids;
                    mask = whole_word_mask (base c) (mask_draw d) ref_tokens
                in Inr \<lparr> input_ids = ids,
                         token_type_ids = types,
                         next_sentence_label = sentence_order_label,
                         mask_label = mask \<rparr>)))"

text \<open>
  \<open>_prepare_wwm_and_sop_from_examples\<close> (lines 111 to 141): the examples in order, the
  i-th with the i-th draws; an exception ends the loop.
\<close>

fun prepare_wwm_and_sop_from_examples ::
  "collator \<Rightarrow> (nat \<Rightarrow> draw) \<Rightarrow> nat \<Rightarrow> (string \<rightharpoonup> int list) list \<Rightarrow> error + example list" where
  "prepare_wwm_and_sop_from_examples c draws i [] = Inr []"
| "prepare_wwm_and_sop_from_examples c draws i (ex # rest) =
     (case prepare_example c (draws i) ex of
        Inl e \<Rightarrow> Inl e
      | Inr out \<Rightarrow>
          (case prepare_wwm_and_sop_from_examples c draws (Suc i) rest of
             Inl e \<Rightarrow> Inl e
           | Inr outs \<Rightarrow> Inr (out # outs)))"

subsection \<open>Stage C: sharding along the sequence dimension\<close>

text \<open>
  Lines 82 to 97: \<open>batch_size, seq_length = value.size()\<close> (a 1-D tensor cannot be
  unpacked into two names), then the padding to a multiple of the world size. A world
  size of zero makes \<open>%\<close> raise. The contiguity step of lines 104 and 105 changes the
  memory layout only, not the values, and has no counterpart here.
\<close>

definition pad_to_world_size :: "int \<Rightarrow> int \<Rightarrow> string \<Rightarrow> tensor \<Rightarrow> error + tensor" where
  "pad_to_world_size world_size pad_id key val =
     (case val of
        Tensor1 xs \<Rightarrow> Inl ValueError
      | Tensor2 seq_length rows \<Rightarrow>
          (let batch_size = length rows in
           if world_size = 0 then Inl ZeroDivisionError
           else if int seq_length mod world_size \<noteq> 0 then
             (let required_length = (int seq_length div world_size + 1) * world_size;
                  difference = required_length - int seq_length
              in case (if key = ''labels'' then torch_full batch_size difference (- 100)
                       else if key = ''token_type_ids'' then torch_full batch_size difference 1
                       else if key = ''attention_mask'' then torch_full batch_size difference 0
                       else torch_full batch_size difference pad_id) of
                   Inl e \<Rightarrow> Inl e
                 | Inr pads \<Rightarrow> torch_cat [val, pads])
           else Inr val))"

text \<open>Lines 79 to 107 for one entry of the batch.\<close>

definition shard_value :: "int \<Rightarrow> int \<Rightarrow> int \<Rightarrow> string \<Rightarrow> tensor \<Rightarrow> error + tensor" where
  "shard_value rank world_size pad_id key val =
     (if tensor_dim val < 2 then Inr val
      else (case pad_to_world_size world_size pad_id key val of
              Inl e \<Rightarrow> Inl e
            | Inr padded \<Rightarrow>
                (case torch_chunk padded world_size of
                   Inl e \<Rightarrow> Inl e
                 | Inr pieces \<Rightarrow> py_index pieces rank)))"

text \<open>
  The loop of lines 78 to 107 over \<open>batch.items()\<close>: every entry is replaced by its
  shard, in the dictionary's order; the first exception ends the call.
\<close>

fun shard_items ::
  "int \<Rightarrow> int \<Rightarrow> int \<Rightarrow> (string \<times> tensor) list \<Rightarrow> error + (string \<times> tensor) list" where
  "shard_items rank world_size pad_id [] = Inr []"
| "shard_items rank world_size pad_id ((key, val) # rest) =
     (case shard_value rank world_size pad_id key val of
        Inl e \<Rightarrow> Inl e
      | Inr v \<Rightarrow>
          (case shard_items rank world_size pad_id rest of
             Inl e \<Rightarrow> Inl e
           | Inr rest' \<Rightarrow> Inr ((key, v) # rest')))"

subsection \<open>The call\<close>

text \<open>\<open>__call__\<close> (lines 69 to 109).\<close>

definition DataCollatorForBertPretraining_call ::
  "collator \<Rightarrow> random_source \<Rightarrow> (string \<rightharpoonup> int list) list \<Rightarrow> error + (string \<times> tensor) list" where
  "DataCollatorForBertPretraining_call c rnd examples =
     (case prepare_wwm_and_sop_from_examples c (example_draws rnd) 0 examples of
        Inl e \<Rightarrow> Inl e
      | Inr prepared \<Rightarrow>
     (case pad (coll_tokenizer c) prepared (pad_to_multiple_of c) of
        Inl e \<Rightarrow> Inl e
      | Inr batch0 \<Rightarrow>
     (case dict_pop ''mask_label'' batch0 of
        Inl e \<Rightarrow> Inl e
      | Inr (batch_mask, batch1) \<Rightarrow>
     (case dict_get batch1 ''input_ids'' of
        Inl e \<Rightarrow> Inl e
      | Inr inputs \<Rightarrow>
     (case torch_mask_tokens (base c) (torch_draw rnd) inputs batch_mask of
        Inl e \<Rightarrow> Inl e
      | Inr (masked, labels) \<Rightarrow>
          (let batch2 = dict_set ''labels'' labels (dict_set ''input_ids'' masked batch1) in
           case parallel_context c of
             None \<Rightarrow> Inr batch2
           | Some ctx \<Rightarrow>
               (case (local_rank c, local_world_size c) of
                  (Some rank, Some world_size) \<Rightarrow>
                    shard_items rank world_size (coll_pad_token_id c) batch2
                | _ \<Rightarrow> Inl AttributeError)))))))"

section \<open>Sample collaborators\<close>

text \<open>
  Concrete collaborators with BERT's conventions, for evaluating the definitions on
  concrete inputs: one id per character, \<open>[CLS] = 101\<close>, \<open>[SEP] = 102\<close>, \<open>[MASK] = 103\<close>,
  \<open>[PAD] = 0\<close>. The sample \<open>pad\<close> right-pads every list-valued field to the longest
  \<open>input_ids\<close>, rounded up to the requested multiple.
\<close>

definition pad_right :: "nat \<Rightarrow> int \<Rightarrow> int list \<Rightarrow> int list" where
  "pad_right n fill xs = xs @ replicate (n - length xs) fill"

definition sample_pad :: "example list \<Rightarrow> int option \<Rightarrow> error + (string \<times> tensor) list" where
  "sample_pad exs multiple =
     (if exs = [] then Inl IndexError
      else
        (let longest = fold max (map (\<lambda>e. length (input_ids e)) exs) 0;
             n = (case multiple of
                    None \<Rightarrow> longest
                  | Some m \<Rightarrow> if m \<le> 0 then longest
                              else nat (((int longest + m - 1) div m) * m))
         in Inr [(''input_ids'', Tensor2 n (map (\<lambda>e. pad_right n 0 (input_ids e)) exs)),
                 (''token_type_ids'', Tensor2 n (map (\<lambda>e. pad_right n 0 (token_type_ids e)) exs)),
                 (''next_sentence_label'', Tensor1 (map next_sentence_label exs)),
                 (''mask_label'', Tensor2 n (map (\<lambda>e. pad_right n 0 (mask_label e)) exs)),
                 (''attention_mask'',
                    Tensor2 n (map (\<lambda>e. pad_right n 0 (replicate (length (input_ids e)) 1)) exs))]))"

definition sample_tokenizer :: tokenizer where
  "sample_tokenizer =
     \<lparr> tokenize = map (\<lambda>c. int (of_char c)),
       sep_token_id = 102,
       pad_token_id = 0,
       build_inputs_with_special_tokens = (\<lambda>a b. [101] @ a @ [102] @ b @ [102]),
       create_token_type_ids_from_sequences =
         (\<lambda>a b. replicate (length a + 2) 0 @ replicate (length b + 1) 1),
       convert_ids_to_tokens = map (\<lambda>i. [char_of i]),
       pad = sample_pad,
       empty_batch_error = IndexError \<rparr>"

definition sample_mask_tokens :: "nat \<Rightarrow> tensor \<Rightarrow> tensor \<Rightarrow> error + (tensor \<times> tensor)" where
  "sample_mask_tokens d inputs mask_labels =
     (case (inputs, mask_labels) of
        (Tensor2 s rows, Tensor2 s' mrows) \<Rightarrow>
          (if s = s' \<and> length rows = length mrows
           then Inr (Tensor2 s (map2 (map2 (\<lambda>x m. if m = 1 then 103 else x)) rows mrows),
                     Tensor2 s (map2 (map2 (\<lambda>x m. if m = 1 then x else - 100)) rows mrows))
           else Inl RuntimeError)
      | _ \<Rightarrow> Inl RuntimeError)"

definition sample_base :: whole_word_mask_base where
  "sample_base =
     \<lparr> whole_word_mask = (\<lambda>d tokens. map (\<lambda>i. if i = d then 1 else 0) [0..<length tokens]),
       torch_mask_tokens = sample_mask_tokens \<rparr>"

text \<open>
  A collator over the sample collaborators, as \<open>__init__\<close> builds it from a processor
  with \<open>max_length = 13\<close>, and a random source: every example draws \<open>pick = 7\<close>, the
  first example of a call is reversed, and position 2 is masked.
\<close>

definition sample_collator :: "ParallelContext option \<Rightarrow> collator" where
  "sample_collator pc =
     \<lparr> coll_tokenizer = sample_tokenizer,
       mlm_probability = 15 / 100,
       pad_to_multiple_of = None,
       coll_pad_token_id = 0,
       parallel_context = pc,
       local_rank = (case pc of None \<Rightarrow> None | Some ctx \<Rightarrow> Some (get_local_rank ctx)),
       local_world_size = (case pc of None \<Rightarrow> None | Some ctx \<Rightarrow> Some (get_world_size ctx)),
       base = sample_base \<rparr>"

definition sample_random :: random_source where
  "sample_random =
     \<lparr> example_draws = (\<lambda>i. \<lparr> pick = 7, coin = (i = 0), mask_draw = 2 \<rparr>),
       torch_draw = 0 \<rparr>"

section \<open>Properties of the chunking loops\<close>

lemma slice_to_from: "slice_to xs k @ slice_from xs k = xs"
  by (simp add: slice_to_def slice_from_def)

lemma drain_conserves:
  assumes "drain cs buf out = Some (out', buf')"
  shows "concat out' @ buf' = concat out @ buf"
proof -
  have "concat (fst y) @ snd y = concat out @ buf" if "drain cs buf out = Some y" for y
  proof (rule drain.raw_induct[where P = "\<lambda>cs buf out y. concat (fst y) @ snd y = concat out @ buf", OF _ that])
    fix f :: "int \<Rightarrow> int list \<Rightarrow> int list list \<Rightarrow> (int list list \<times> int list) option"
    fix cs buf out y
    assume ih: "\<And>cs buf out y. f cs buf out = Some y \<Longrightarrow> concat (fst y) @ snd y = concat out @ buf"
    assume step: "(if cs \<le> int (length buf)
      then f cs (slice_from buf cs) (out @ [slice_to buf cs])
      else Some (out, buf)) = Some y"
    show "concat (fst y) @ snd y = concat out @ buf"
    proof (cases "cs \<le> int (length buf)")
      case True
      with step have "f cs (slice_from buf cs) (out @ [slice_to buf cs]) = Some y"
        by simp
      from ih[OF this] show ?thesis
        by (simp add: slice_to_from)
    next
      case False
      with step show ?thesis by auto
    qed
  qed
  from this[OF assms] show ?thesis by simp
qed

lemma drain_short: "int (length buf) < cs \<Longrightarrow> drain cs buf out = Some (out, buf)"
  by (subst drain.simps) simp

lemma drain_returns:
  "0 < cs \<Longrightarrow> \<exists>out' buf'. drain cs buf out = Some (out', buf') \<and> int (length buf') < cs"
proof (induction "length buf" arbitrary: buf out rule: less_induct)
  case less
  show ?case
  proof (cases "cs \<le> int (length buf)")
    case True
    with less.prems have "length (slice_from buf cs) < length buf"
      by (simp add: slice_from_def)
    from less.hyps[OF this less.prems, of "out @ [slice_to buf cs]"] True
    show ?thesis by (subst drain.simps) simp
  next
    case False
    then show ?thesis by (simp add: drain_short)
  qed
qed

lemma drain_diverges: "cs \<le> 0 \<Longrightarrow> drain cs buf out = None"
proof (rule ccontr)
  assume cs: "cs \<le> 0" and "drain cs buf out \<noteq> None"
  then obtain y where y: "drain cs buf out = Some y" by auto
  have "\<not> cs \<le> 0"
  proof (rule drain.raw_induct[where P = "\<lambda>cs buf out y. \<not> cs \<le> 0", OF _ y])
    fix f :: "int \<Rightarrow> int list \<Rightarrow> int list list \<Rightarrow> (int list list \<times> int list) option"
    fix cs buf out y
    assume ih: "\<And>cs buf out y. f cs buf out = Some y \<Longrightarrow> \<not> cs \<le> 0"
    assume step: "(if cs \<le> int (length buf)
      then f cs (slice_from buf cs) (out @ [slice_to buf cs])
      else Some (out, buf)) = Some y"
    show "\<not> cs \<le> 0"
    proof
      assume c: "cs \<le> 0"
      then have "cs \<le> int (length buf)" by simp
      with step have "f cs (slice_from buf cs) (out @ [slice_to buf cs]) = Some y" by simp
      from ih[OF this] c show False by simp
    qed
  qed
  with cs show False by simp
qed

lemma feed_conserves:
  "feed cs sep idss buf out = Some (out', buf') \<Longrightarrow>
   concat out' @ buf' = concat out @ buf @ concat (map (\<lambda>ids. ids @ [sep]) idss)"
proof (induction idss arbitrary: buf out)
  case Nil
  then show ?case by simp
next
  case (Cons ids idss)
  from Cons.prems obtain o1 b1 where
    d: "drain cs (buf @ (ids @ [sep])) out = Some (o1, b1)" and
    f: "feed cs sep idss b1 o1 = Some (out', buf')"
    by (auto split: option.splits)
  from drain_conserves[OF d] Cons.IH[OF f] show ?case by simp
qed

lemma feed_returns:
  "0 < cs \<Longrightarrow> int (length buf) < cs \<Longrightarrow>
   \<exists>out' buf'. feed cs sep idss buf out = Some (out', buf') \<and> int (length buf') < cs"
proof (induction idss arbitrary: buf out)
  case Nil
  then show ?case by simp
next
  case (Cons ids idss)
  from drain_returns[OF Cons.prems(1), of "buf @ (ids @ [sep])" out] obtain o1 b1 where
    d: "drain cs (buf @ (ids @ [sep])) out = Some (o1, b1)" and b: "int (length b1) < cs"
    by blast
  from Cons.IH[OF Cons.prems(1) b, of o1] d show ?case by simp
qed

lemma feed_total:
  "0 < cs \<Longrightarrow> \<exists>r. feed cs sep idss buf out = Some r"
proof (induction idss arbitrary: buf out)
  case Nil
  then show ?case by simp
next
  case (Cons ids idss)
  from drain_returns[OF Cons.prems(1), of "buf @ (ids @ [sep])" out] obtain o1 b1 where
    d: "drain cs (buf @ (ids @ [sep])) out = Some (o1, b1)"
    by blast
  from Cons.IH[OF Cons.prems(1), of b1 o1] d show ?case by simp
qed

lemma feed_diverges: "cs \<le> 0 \<Longrightarrow> idss \<noteq> [] \<Longrightarrow> feed cs sep idss buf out = None"
  by (cases idss) (simp_all add: drain_diverges)

lemma feed_short:
  "int (length buf + length (concat (map (\<lambda>ids. ids @ [sep]) idss))) < cs \<Longrightarrow>
   feed cs sep idss buf out = Some (out, buf @ concat (map (\<lambda>ids. ids @ [sep]) idss))"
proof (induction idss arbitrary: buf)
  case Nil
  then show ?case by simp
next
  case (Cons ids idss)
  from Cons.prems have "int (length (buf @ (ids @ [sep]))) < cs" by simp
  then have d: "drain cs (buf @ (ids @ [sep])) out = Some (out, buf @ (ids @ [sep]))"
    by (rule drain_short)
  from Cons.prems have "int (length (buf @ (ids @ [sep])) + length (concat (map (\<lambda>ids. ids @ [sep]) idss))) < cs"
    by simp
  from Cons.IH[OF this] d show ?case by simp
qed

section \<open>Properties of the processor\<close>

lemma call_cases:
  "ProcessorForBertPretraining_call p examples = Some (r, p') \<Longrightarrow>
   emitted r @ buffer p' = buffer p @ batch_stream (proc_tokenizer p) examples \<and>
   proc_tokenizer p' = proc_tokenizer p \<and> chunk_size p' = chunk_size p \<and>
   max_length p' = max_length p"
  by (auto simp: ProcessorForBertPretraining_call_def batch_input_ids_def emitted_def
        batch_stream_def map_map comp_def dest!: feed_conserves
        split: option.splits if_splits)

lemma run_calls_conserves:
  "run_calls p batches = Some (rs, p') \<Longrightarrow>
   concat (map emitted rs) @ buffer p' =
     buffer p @ concat (map (batch_stream (proc_tokenizer p)) batches)"
proof (induction batches arbitrary: p rs)
  case Nil
  then show ?case by simp
next
  case (Cons examples rest)
  from Cons.prems obtain r p1 rs1 where
    c: "ProcessorForBertPretraining_call p examples = Some (r, p1)" and
    rr: "run_calls p1 rest = Some (rs1, p')" and rs: "rs = r # rs1"
    by (auto split: option.splits)
  from call_cases[OF c] Cons.IH[OF rr] rs show ?case by simp
qed

lemma call_returns:
  "0 < chunk_size p \<Longrightarrow> \<exists>r p'. ProcessorForBertPretraining_call p examples = Some (r, p')"
proof (cases "examples ''text''")
  case None
  then show ?thesis by (simp add: ProcessorForBertPretraining_call_def)
next
  case (Some texts)
  assume "0 < chunk_size p"
  from feed_total[OF this, of "sep_token_id (proc_tokenizer p)"
      "map (tokenize (proc_tokenizer p)) texts" "buffer p" "[]"]
  show ?thesis using Some
    by (auto simp: ProcessorForBertPretraining_call_def batch_input_ids_def)
qed

lemma run_calls_returns:
  "0 < chunk_size p \<Longrightarrow> \<exists>rs p'. run_calls p batches = Some (rs, p')"
proof (induction batches arbitrary: p)
  case Nil
  then show ?case by simp
next
  case (Cons examples rest)
  from call_returns[OF Cons.prems, of examples] obtain r p1 where
    c: "ProcessorForBertPretraining_call p examples = Some (r, p1)" by blast
  from call_cases[OF c] Cons.prems have "0 < chunk_size p1" by simp
  from Cons.IH[OF this] c show ?case by auto
qed

lemma call_keeps_bound:
  assumes "0 < chunk_size p" and "int (length (buffer p)) < chunk_size p"
  shows "\<exists>r p'. ProcessorForBertPretraining_call p examples = Some (r, p') \<and>
           chunk_size p' = chunk_size p \<and> int (length (buffer p')) < chunk_size p'"
proof (cases "examples ''text''")
  case None
  with assms show ?thesis by (simp add: ProcessorForBertPretraining_call_def)
next
  case (Some texts)
  from feed_returns[OF assms, of "sep_token_id (proc_tokenizer p)"
      "map (tokenize (proc_tokenizer p)) texts" "[]"]
  show ?thesis using Some assms
    by (auto simp: ProcessorForBertPretraining_call_def batch_input_ids_def)
qed

lemma run_calls_keeps_bound:
  "0 < chunk_size p \<Longrightarrow> int (length (buffer p)) < chunk_size p \<Longrightarrow>
   \<exists>rs p'. run_calls p batches = Some (rs, p') \<and>
      chunk_size p' = chunk_size p \<and> int (length (buffer p')) < chunk_size p'"
proof (induction batches arbitrary: p)
  case Nil
  then show ?case by simp
next
  case (Cons examples rest)
  from call_keeps_bound[OF Cons.prems, of examples] obtain r p1 where
    c: "ProcessorForBertPretraining_call p examples = Some (r, p1)" and
    k: "chunk_size p1 = chunk_size p" and b: "int (length (buffer p1)) < chunk_size p1"
    by blast
  from k Cons.prems have "0 < chunk_size p1" by simp
  from Cons.IH[OF this b] c k show ?case by auto
qed

lemma call_dom:
  "ProcessorForBertPretraining_call p examples = Some (Inr d, p') \<Longrightarrow> dom d = {''input_ids''}"
  unfolding ProcessorForBertPretraining_call_def batch_input_ids_def
  by (auto split: option.splits if_splits)

lemma call_returns_dict:
  assumes "0 < chunk_size p" and t: "examples ''text'' = Some texts" and ne: "texts \<noteq> []"
  shows "\<exists>d p'. ProcessorForBertPretraining_call p examples = Some (Inr d, p')"
proof -
  from feed_total[OF assms(1), of "sep_token_id (proc_tokenizer p)"
      "map (tokenize (proc_tokenizer p)) texts" "buffer p" "[]"]
  obtain out buf where "feed (chunk_size p) (sep_token_id (proc_tokenizer p))
      (map (tokenize (proc_tokenizer p)) texts) (buffer p) [] = Some (out, buf)"
    by auto
  with t ne show ?thesis
    by (simp add: ProcessorForBertPretraining_call_def batch_input_ids_def)
qed

lemma call_short:
  assumes t: "examples ''text'' = Some texts" and ne: "texts \<noteq> []"
    and a: "int (length (buffer p) + length (batch_stream (proc_tokenizer p) examples)) < chunk_size p"
  shows "ProcessorForBertPretraining_call p examples =
        Some (Inr [''input_ids'' \<mapsto> []],
              p\<lparr>buffer := buffer p @ batch_stream (proc_tokenizer p) examples\<rparr>)"
proof -
  let ?sep = "sep_token_id (proc_tokenizer p)"
  let ?idss = "map (tokenize (proc_tokenizer p)) texts"
  have s: "batch_stream (proc_tokenizer p) examples = concat (map (\<lambda>ids. ids @ [?sep]) ?idss)"
    using t by (simp add: batch_stream_def comp_def)
  from a have "int (length (buffer p) + length (concat (map (\<lambda>ids. ids @ [?sep]) ?idss)))
      < chunk_size p"
    by (simp only: s)
  from feed_short[OF this, of "[]"]
  have "feed (chunk_size p) ?sep ?idss (buffer p) [] =
      Some ([], buffer p @ batch_stream (proc_tokenizer p) examples)"
    by (simp only: s)
  with t ne show ?thesis
    by (simp add: ProcessorForBertPretraining_call_def batch_input_ids_def)
qed

text \<open>
  With a chunk size that is not positive, a call that has a text to process never leaves
  the inner loop.
\<close>

lemma call_diverges:
  "chunk_size p \<le> 0 \<Longrightarrow> examples ''text'' = Some (t # ts) \<Longrightarrow>
   ProcessorForBertPretraining_call p examples = None"
  by (simp add: ProcessorForBertPretraining_call_def batch_input_ids_def drain_diverges)

text \<open>An empty \<open>text\<close> column: the tokenizer raises, and the buffer is as it was.\<close>

lemma call_empty_batch:
  "examples ''text'' = Some [] \<Longrightarrow>
   ProcessorForBertPretraining_call p examples =
     Some (Inl (empty_batch_error (proc_tokenizer p)), p)"
  by (simp add: ProcessorForBertPretraining_call_def batch_input_ids_def)

text \<open>
  The inner loop is left only when the buffer is shorter than the chunk size, so that is
  what holds after the last text of a call.
\<close>

lemma drain_exit:
  assumes "drain cs buf out = Some (out', buf')"
  shows "int (length buf') < cs"
proof -
  have "int (length (snd y)) < cs" if "drain cs buf out = Some y" for y
  proof (rule drain.raw_induct[where P = "\<lambda>cs buf out y. int (length (snd y)) < cs", OF _ that])
    fix f :: "int \<Rightarrow> int list \<Rightarrow> int list list \<Rightarrow> (int list list \<times> int list) option"
    fix cs buf out y
    assume ih: "\<And>cs buf out y. f cs buf out = Some y \<Longrightarrow> int (length (snd y)) < cs"
    assume step: "(if cs \<le> int (length buf)
      then f cs (slice_from buf cs) (out @ [slice_to buf cs])
      else Some (out, buf)) = Some y"
    show "int (length (snd y)) < cs"
    proof (cases "cs \<le> int (length buf)")
      case True
      with step have "f cs (slice_from buf cs) (out @ [slice_to buf cs]) = Some y"
        by simp
      then show ?thesis by (rule ih)
    next
      case False
      with step show ?thesis by auto
    qed
  qed
  from this[OF assms] show ?thesis by simp
qed

lemma feed_exit:
  "idss \<noteq> [] \<Longrightarrow> feed cs sep idss buf out = Some (out', buf') \<Longrightarrow> int (length buf') < cs"
proof (induction idss arbitrary: buf out)
  case Nil
  then show ?case by simp
next
  case (Cons ids rest)
  from Cons.prems(2) obtain o1 b1 where
    d: "drain cs (buf @ (ids @ [sep])) out = Some (o1, b1)" and
    f: "feed cs sep rest b1 o1 = Some (out', buf')"
    by (auto split: option.splits)
  show ?case
  proof (cases "rest = []")
    case True
    with f have "buf' = b1" by simp
    with drain_exit[OF d] show ?thesis by simp
  next
    case False
    from Cons.IH[OF False f] show ?thesis .
  qed
qed

lemma call_exit:
  assumes "ProcessorForBertPretraining_call p examples = Some (Inr d, p')"
  shows "int (length (buffer p')) < chunk_size p' \<and> chunk_size p' = chunk_size p"
proof -
  from assms obtain texts where t: "examples ''text'' = Some texts"
    by (cases "examples ''text''") (simp_all add: ProcessorForBertPretraining_call_def)
  from assms t have ne: "texts \<noteq> []"
    by (auto simp: ProcessorForBertPretraining_call_def batch_input_ids_def)
  from assms t ne obtain out buf where
    f: "feed (chunk_size p) (sep_token_id (proc_tokenizer p))
          (map (tokenize (proc_tokenizer p)) texts) (buffer p) [] = Some (out, buf)" and
    p': "p' = p\<lparr>buffer := buf\<rparr>"
    by (auto simp: ProcessorForBertPretraining_call_def batch_input_ids_def split: option.splits)
  from ne have "map (tokenize (proc_tokenizer p)) texts \<noteq> []" by simp
  from feed_exit[OF this f] p' show ?thesis by simp
qed

lemma run_calls_chunk_size:
  "run_calls p batches = Some (rs, p') \<Longrightarrow> chunk_size p' = chunk_size p"
proof (induction batches arbitrary: p rs)
  case Nil
  then show ?case by simp
next
  case (Cons examples rest)
  from Cons.prems obtain r p1 rs1 where
    c: "ProcessorForBertPretraining_call p examples = Some (r, p1)" and
    rr: "run_calls p1 rest = Some (rs1, p')"
    by (auto split: option.splits)
  from call_cases[OF c] Cons.IH[OF rr] show ?case by simp
qed

section \<open>Token conservation and the buffer bound\<close>

text \<open>
  Claim C1. For any consecutive calls on one instance that return, the ids of all emitted
  chunks, in emission order, followed by the final buffer are exactly the stream of the
  batches: every text's ids with the separator appended, in input order. This holds from
  a fresh instance (first conjunct) and from any state, whose buffered ids then come
  first (second conjunct). With a positive chunk size the calls do return.
\<close>

theorem token_conservation:
  "(\<forall>rs p'. run_calls (ProcessorForBertPretraining_init tok ml) batches = Some (rs, p') \<longrightarrow>
      concat (map emitted rs) @ buffer p' = concat (map (batch_stream tok) batches)) \<and>
   (\<forall>rs p'. run_calls p batches = Some (rs, p') \<longrightarrow>
      concat (map emitted rs) @ buffer p' =
        buffer p @ concat (map (batch_stream (proc_tokenizer p)) batches)) \<and>
   (0 < chunk_size p \<longrightarrow> (\<exists>rs p'. run_calls p batches = Some (rs, p')))"
proof (intro conjI allI impI)
  fix rs p'
  assume "run_calls (ProcessorForBertPretraining_init tok ml) batches = Some (rs, p')"
  from run_calls_conserves[OF this]
  show "concat (map emitted rs) @ buffer p' = concat (map (batch_stream tok) batches)"
    by (simp add: ProcessorForBertPretraining_init_def)
next
  fix rs p'
  assume "run_calls p batches = Some (rs, p')"
  then show "concat (map emitted rs) @ buffer p' =
        buffer p @ concat (map (batch_stream (proc_tokenizer p)) batches)"
    by (rule run_calls_conserves)
next
  assume "0 < chunk_size p"
  then show "\<exists>rs p'. run_calls p batches = Some (rs, p')"
    by (rule run_calls_returns)
qed

text \<open>The statement at three calls, the second on a batch without a text column.\<close>

theorem token_conservation_witness:
  "run_calls (ProcessorForBertPretraining_init sample_tokenizer 6)
      [[''text'' \<mapsto> [''abcd'', ''ef'']], Map.empty, [''text'' \<mapsto> [''g'']]] =
    Some ([Inr [''input_ids'' \<mapsto> [[97, 98, 99], [100, 102, 101]]], Inl AssertionError,
           Inr [''input_ids'' \<mapsto> [[102, 102, 103]]]],
          (ProcessorForBertPretraining_init sample_tokenizer 6)\<lparr>buffer := [102]\<rparr>) \<and>
   concat (map emitted
      [Inr [''input_ids'' \<mapsto> [[97, 98, 99], [100, 102, 101]]], Inl AssertionError,
       Inr [''input_ids'' \<mapsto> [[102, 102, 103]]]]) @ [102] =
   concat (map (batch_stream sample_tokenizer)
      [[''text'' \<mapsto> [''abcd'', ''ef'']], Map.empty, [''text'' \<mapsto> [''g'']]]) \<and>
   concat (map (batch_stream sample_tokenizer)
      [[''text'' \<mapsto> [''abcd'', ''ef'']], Map.empty, [''text'' \<mapsto> [''g'']]]) =
   [97, 98, 99, 100, 102, 101, 102, 102, 103, 102]"
proof -
  let ?bs = "[[''text'' \<mapsto> [''abcd'', ''ef'']], Map.empty, [''text'' \<mapsto> [''g'']]]"
  let ?p0 = "ProcessorForBertPretraining_init sample_tokenizer 6"
  have run: "run_calls ?p0 ?bs =
    Some ([Inr [''input_ids'' \<mapsto> [[97, 98, 99], [100, 102, 101]]], Inl AssertionError,
           Inr [''input_ids'' \<mapsto> [[102, 102, 103]]]], ?p0\<lparr>buffer := [102]\<rparr>)"
    by (simp add: ProcessorForBertPretraining_call_def batch_input_ids_def
          ProcessorForBertPretraining_init_def sample_tokenizer_def drain.simps
          slice_to_def slice_from_def)
  have stream: "concat (map (batch_stream sample_tokenizer) ?bs) =
      [97, 98, 99, 100, 102, 101, 102, 102, 103, 102]"
    by (simp add: batch_stream_def sample_tokenizer_def)
  from token_conservation[of sample_tokenizer 6 ?bs ?p0] run
  have "concat (map emitted
      [Inr [''input_ids'' \<mapsto> [[97, 98, 99], [100, 102, 101]]], Inl AssertionError,
       Inr [''input_ids'' \<mapsto> [[102, 102, 103]]]]) @ buffer (?p0\<lparr>buffer := [102]\<rparr>) =
      concat (map (batch_stream sample_tokenizer) ?bs)"
    by blast
  with run stream show ?thesis by simp
qed

text \<open>
  Claim C4. As amended: a call on a batch with no \<open>text\<close> column raises
  \<open>AssertionError\<close> (line 21 is an \<open>assert\<close>), before any tokenization, and leaves
  the processor as it was.
\<close>

theorem missing_text_raises_assertion:
  "examples ''text'' = None \<Longrightarrow>
   ProcessorForBertPretraining_call p examples = Some (Inl AssertionError, p)"
  by (simp add: ProcessorForBertPretraining_call_def)

theorem missing_text_raises_assertion_witness:
  "ProcessorForBertPretraining_call
     ((ProcessorForBertPretraining_init sample_tokenizer 13)\<lparr>buffer := [97, 102]\<rparr>)
     [''sentence'' \<mapsto> [''abc'']] =
   Some (Inl AssertionError,
     (ProcessorForBertPretraining_init sample_tokenizer 13)\<lparr>buffer := [97, 102]\<rparr>)"
  using missing_text_raises_assertion[of "[''sentence'' \<mapsto> [''abc'']]"
      "(ProcessorForBertPretraining_init sample_tokenizer 13)\<lparr>buffer := [97, 102]\<rparr>"]
  by simp

text \<open>
  Claim C4 as stated fails: the exception at a batch whose only column is \<open>sentence\<close>
  is not a \<open>SchemaError\<close>.
\<close>

theorem missing_text_schema_error_counterexample:
  "ProcessorForBertPretraining_call (ProcessorForBertPretraining_init sample_tokenizer 13)
     [''sentence'' \<mapsto> [''abc'']] \<noteq>
   Some (Inl SchemaError, ProcessorForBertPretraining_init sample_tokenizer 13)"
  by (simp add: ProcessorForBertPretraining_call_def)

text \<open>
  Claim C7. After every call that returns, the buffer is strictly shorter than the chunk
  size, whatever the state before the call, and the chunk size is unchanged: on an
  instance built with \<open>max_length\<close> it is \<open>max_length - 3\<close> after any calls. With a
  positive chunk size and at least one text the call does return, and then the bound
  also holds after calls that raise.
\<close>

theorem buffer_below_chunk_size:
  "(\<forall>d p'. ProcessorForBertPretraining_call p examples = Some (Inr d, p') \<longrightarrow>
      int (length (buffer p')) < chunk_size p' \<and> chunk_size p' = chunk_size p) \<and>
   (\<forall>rs p'. run_calls (ProcessorForBertPretraining_init tok ml) batches = Some (rs, p') \<longrightarrow>
      chunk_size p' = ml - 3) \<and>
   (0 < chunk_size p \<and> examples ''text'' = Some (t # ts) \<longrightarrow>
      (\<exists>d p'. ProcessorForBertPretraining_call p examples = Some (Inr d, p'))) \<and>
   (3 < ml \<longrightarrow>
      (\<exists>rs p'. run_calls (ProcessorForBertPretraining_init tok ml) batches = Some (rs, p') \<and>
         int (length (buffer p')) < ml - 3))"
proof -
  have bound: "\<forall>d p'. ProcessorForBertPretraining_call p examples = Some (Inr d, p') \<longrightarrow>
      int (length (buffer p')) < chunk_size p' \<and> chunk_size p' = chunk_size p"
    using call_exit by blast
  have size: "\<forall>rs p'. run_calls (ProcessorForBertPretraining_init tok ml) batches = Some (rs, p') \<longrightarrow>
      chunk_size p' = ml - 3"
  proof (intro allI impI)
    fix rs p'
    assume "run_calls (ProcessorForBertPretraining_init tok ml) batches = Some (rs, p')"
    from run_calls_chunk_size[OF this] show "chunk_size p' = ml - 3"
      by (simp add: ProcessorForBertPretraining_init_def)
  qed
  have returns: "0 < chunk_size p \<and> examples ''text'' = Some (t # ts) \<longrightarrow>
      (\<exists>d p'. ProcessorForBertPretraining_call p examples = Some (Inr d, p'))"
    using call_returns_dict[of p examples "t # ts"] by simp
  have fresh: "3 < ml \<longrightarrow>
      (\<exists>rs p'. run_calls (ProcessorForBertPretraining_init tok ml) batches = Some (rs, p') \<and>
         int (length (buffer p')) < ml - 3)"
    using run_calls_keeps_bound[of "ProcessorForBertPretraining_init tok ml" batches]
    by (auto simp: ProcessorForBertPretraining_init_def)
  from bound size returns fresh show ?thesis by (intro conjI)
qed

theorem buffer_below_chunk_size_witness:
  "ProcessorForBertPretraining_call
      ((ProcessorForBertPretraining_init sample_tokenizer 6)\<lparr>buffer := [120, 102]\<rparr>)
      [''text'' \<mapsto> [''abcd'', ''ef'']] =
     Some (Inr [''input_ids'' \<mapsto> [[120, 102, 97], [98, 99, 100], [102, 101, 102]]],
           (ProcessorForBertPretraining_init sample_tokenizer 6)\<lparr>buffer := [102]\<rparr>) \<and>
   int (length (buffer ((ProcessorForBertPretraining_init sample_tokenizer 6)\<lparr>buffer := [102]\<rparr>)))
     < chunk_size ((ProcessorForBertPretraining_init sample_tokenizer 6)\<lparr>buffer := [102]\<rparr>) \<and>
   chunk_size ((ProcessorForBertPretraining_init sample_tokenizer 6)\<lparr>buffer := [102]\<rparr>) = 3"
proof -
  let ?fresh = "ProcessorForBertPretraining_init sample_tokenizer 6"
  let ?q = "?fresh\<lparr>buffer := [120, 102]\<rparr>"
  let ?ex = "[''text'' \<mapsto> [''abcd'', ''ef'']]"
  have c: "ProcessorForBertPretraining_call ?q ?ex =
     Some (Inr [''input_ids'' \<mapsto> [[120, 102, 97], [98, 99, 100], [102, 101, 102]]],
           ?fresh\<lparr>buffer := [102]\<rparr>)"
    by (simp add: ProcessorForBertPretraining_call_def batch_input_ids_def
          ProcessorForBertPretraining_init_def sample_tokenizer_def drain.simps
          slice_to_def slice_from_def)
  from buffer_below_chunk_size[of ?q ?ex, THEN conjunct1, THEN spec, THEN spec, THEN mp, OF c]
  have b: "int (length (buffer (?fresh\<lparr>buffer := [102]\<rparr>)))
      < chunk_size (?fresh\<lparr>buffer := [102]\<rparr>)" by (rule conjunct1)
  have k: "chunk_size (?fresh\<lparr>buffer := [102]\<rparr>) = 3"
    by (simp add: ProcessorForBertPretraining_init_def)
  from c b k show ?thesis by (intro conjI)
qed

text \<open>
  Claim C10. Every dictionary a call returns has the single key \<open>input_ids\<close>; with
  a positive chunk size and a \<open>text\<close> column that is not empty the call does return
  one; and when the buffered ids together with this call's ids and separators stay below
  the chunk size, the result is \<open>{"input_ids": []}\<close> and the buffer holds all of them.
  On an empty \<open>text\<close> column the call returns no dictionary: the tokenizer raises.
\<close>

theorem call_returns_input_ids_only:
  "(\<forall>d p'. ProcessorForBertPretraining_call p examples = Some (Inr d, p') \<longrightarrow>
      dom d = {''input_ids''}) \<and>
   (0 < chunk_size p \<and> examples ''text'' \<noteq> None \<and> examples ''text'' \<noteq> Some [] \<longrightarrow>
      (\<exists>d p'. ProcessorForBertPretraining_call p examples = Some (Inr d, p'))) \<and>
   (examples ''text'' \<noteq> None \<and> examples ''text'' \<noteq> Some [] \<and>
    int (length (buffer p) + length (batch_stream (proc_tokenizer p) examples)) < chunk_size p \<longrightarrow>
      ProcessorForBertPretraining_call p examples =
        Some (Inr [''input_ids'' \<mapsto> []],
              p\<lparr>buffer := buffer p @ batch_stream (proc_tokenizer p) examples\<rparr>)) \<and>
   (examples ''text'' = Some [] \<longrightarrow>
      ProcessorForBertPretraining_call p examples =
        Some (Inl (empty_batch_error (proc_tokenizer p)), p))"
proof -
  have keys: "\<forall>d p'. ProcessorForBertPretraining_call p examples = Some (Inr d, p') \<longrightarrow>
      dom d = {''input_ids''}"
    using call_dom by blast
  have returns: "0 < chunk_size p \<and> examples ''text'' \<noteq> None \<and> examples ''text'' \<noteq> Some [] \<longrightarrow>
      (\<exists>d p'. ProcessorForBertPretraining_call p examples = Some (Inr d, p'))"
    using call_returns_dict[of p examples] by (cases "examples ''text''") auto
  have short: "examples ''text'' \<noteq> None \<and> examples ''text'' \<noteq> Some [] \<and>
    int (length (buffer p) + length (batch_stream (proc_tokenizer p) examples)) < chunk_size p \<longrightarrow>
      ProcessorForBertPretraining_call p examples =
        Some (Inr [''input_ids'' \<mapsto> []],
              p\<lparr>buffer := buffer p @ batch_stream (proc_tokenizer p) examples\<rparr>)"
    using call_short[of examples _ p] by (cases "examples ''text''") auto
  have empty: "examples ''text'' = Some [] \<longrightarrow>
      ProcessorForBertPretraining_call p examples =
        Some (Inl (empty_batch_error (proc_tokenizer p)), p)"
    using call_empty_batch by blast
  from keys returns short empty show ?thesis by (intro conjI)
qed

theorem call_returns_input_ids_only_witness:
  "ProcessorForBertPretraining_call
      ((ProcessorForBertPretraining_init sample_tokenizer 13)\<lparr>buffer := [120, 102]\<rparr>)
      [''text'' \<mapsto> [''ab'', ''c'']] =
     Some (Inr [''input_ids'' \<mapsto> []],
       (ProcessorForBertPretraining_init sample_tokenizer 13)
         \<lparr>buffer := [120, 102, 97, 98, 102, 99, 102]\<rparr>) \<and>
   dom [''input_ids'' \<mapsto> ([] :: int list list)] = {''input_ids''}"
proof -
  let ?p = "(ProcessorForBertPretraining_init sample_tokenizer 13)\<lparr>buffer := [120, 102]\<rparr>"
  let ?ex = "[''text'' \<mapsto> [''ab'', ''c'']]"
  have st: "batch_stream (proc_tokenizer ?p) ?ex = [97, 98, 102, 99, 102]"
    by (simp add: batch_stream_def ProcessorForBertPretraining_init_def sample_tokenizer_def)
  have h: "?ex ''text'' \<noteq> None \<and> ?ex ''text'' \<noteq> Some [] \<and>
    int (length (buffer ?p) + length (batch_stream (proc_tokenizer ?p) ?ex)) < chunk_size ?p"
    unfolding st by (simp add: ProcessorForBertPretraining_init_def)
  have c: "ProcessorForBertPretraining_call ?p ?ex =
        Some (Inr [''input_ids'' \<mapsto> []],
              ?p\<lparr>buffer := buffer ?p @ batch_stream (proc_tokenizer ?p) ?ex\<rparr>)"
    by (rule call_returns_input_ids_only[of ?p ?ex, THEN conjunct2, THEN conjunct2,
          THEN conjunct1, THEN mp, OF h])
  have d: "dom [''input_ids'' \<mapsto> ([] :: int list list)] = {''input_ids''}"
    by (rule call_returns_input_ids_only[of ?p ?ex, THEN conjunct1, THEN spec, THEN spec,
          THEN mp, OF c])
  have b: "?p\<lparr>buffer := buffer ?p @ batch_stream (proc_tokenizer ?p) ?ex\<rparr> =
      (ProcessorForBertPretraining_init sample_tokenizer 13)
         \<lparr>buffer := [120, 102, 97, 98, 102, 99, 102]\<rparr>"
    unfolding st by simp
  from c d show ?thesis unfolding b by (intro conjI)
qed

section \<open>Properties of Stage A\<close>

lemma randrange_range:
  "randrange pk start stop = Inr v \<Longrightarrow> start \<le> v \<and> v < stop"
proof -
  assume a: "randrange pk start stop = Inr v"
  then have lt: "start < stop" by (simp add: randrange_def split: if_splits)
  with a have v: "v = start + int (pk mod nat (stop - start))"
    by (simp add: randrange_def)
  from lt have "pk mod nat (stop - start) < nat (stop - start)" by simp
  with v lt show ?thesis by linarith
qed

lemma randrange_total: "start < stop \<Longrightarrow> \<exists>v. randrange pk start stop = Inr v"
  by (simp add: randrange_def)

lemma randrange_empty: "stop \<le> start \<Longrightarrow> randrange pk start stop = Inl ValueError"
  by (simp add: randrange_def)

lemma randrange_reaches:
  "start \<le> v \<Longrightarrow> v < stop \<Longrightarrow> randrange (nat (v - start)) start stop = Inr v"
  by (simp add: randrange_def)

lemma choose_split_range:
  "choose_split pk chunk_ids = Inr sp \<Longrightarrow>
   int (length chunk_ids) div 3 \<le> sp \<and> sp < int (length chunk_ids) div 3 * 2"
  unfolding choose_split_def Let_def by (rule randrange_range)

lemma choose_split_total:
  "3 \<le> length chunk_ids \<Longrightarrow> \<exists>sp. choose_split pk chunk_ids = Inr sp"
  unfolding choose_split_def Let_def by (rule randrange_total) linarith

lemma choose_split_empty:
  "length chunk_ids < 3 \<Longrightarrow> choose_split pk chunk_ids = Inl ValueError"
  unfolding choose_split_def Let_def by (rule randrange_empty) simp

lemma prepare_example_short:
  "ex ''input_ids'' = Some chunk_ids \<Longrightarrow> length chunk_ids < 3 \<Longrightarrow>
   prepare_example c d ex = Inl ValueError"
  by (simp add: prepare_example_def choose_split_empty)

lemma prepare_example_built:
  assumes "ex ''input_ids'' = Some chunk_ids" and "choose_split (pick d) chunk_ids = Inr sp"
  shows "prepare_example c d ex =
     Inr \<lparr> input_ids = build_inputs_with_special_tokens (coll_tokenizer c)
                (fst (segments (coin d) sp chunk_ids)) (snd (segments (coin d) sp chunk_ids)),
           token_type_ids = create_token_type_ids_from_sequences (coll_tokenizer c)
                (fst (segments (coin d) sp chunk_ids)) (snd (segments (coin d) sp chunk_ids)),
           next_sentence_label = (if coin d then 1 else 0),
           mask_label = whole_word_mask (base c) (mask_draw d)
              (convert_ids_to_tokens (coll_tokenizer c)
                (build_inputs_with_special_tokens (coll_tokenizer c)
                  (fst (segments (coin d) sp chunk_ids)) (snd (segments (coin d) sp chunk_ids)))) \<rparr>"
  using assms by (simp add: prepare_example_def Let_def split_beta)

lemma prepare_example_Inr:
  assumes "prepare_example c d ex = Inr e"
  obtains chunk_ids sp where "ex ''input_ids'' = Some chunk_ids"
    and "choose_split (pick d) chunk_ids = Inr sp"
proof -
  from assms obtain chunk_ids where 1: "ex ''input_ids'' = Some chunk_ids"
    by (cases "ex ''input_ids''") (simp_all add: prepare_example_def)
  with assms obtain sp where "choose_split (pick d) chunk_ids = Inr sp"
    by (cases "choose_split (pick d) chunk_ids") (simp_all add: prepare_example_def)
  with 1 that show ?thesis by blast
qed

lemma prepare_nth:
  "prepare_wwm_and_sop_from_examples c draws k exs = Inr outs \<Longrightarrow>
   length outs = length exs \<and>
   (\<forall>i < length exs. prepare_example c (draws (k + i)) (exs ! i) = Inr (outs ! i))"
proof (induction exs arbitrary: k outs)
  case Nil
  then show ?case by simp
next
  case (Cons ex rest)
  from Cons.prems obtain out outs' where
    1: "prepare_example c (draws k) ex = Inr out" and
    2: "prepare_wwm_and_sop_from_examples c draws (Suc k) rest = Inr outs'" and
    3: "outs = out # outs'"
    by (auto split: sum.splits)
  from Cons.IH[OF 2] have len: "length outs' = length rest" and
    nth: "\<And>i. i < length rest \<Longrightarrow> prepare_example c (draws (Suc k + i)) (rest ! i) = Inr (outs' ! i)"
    by auto
  show ?case
  proof (intro conjI allI impI)
    show "length outs = length (ex # rest)" using 3 len by simp
  next
    fix i assume "i < length (ex # rest)"
    then show "prepare_example c (draws (k + i)) ((ex # rest) ! i) = Inr (outs ! i)"
      using 1 3 nth[of "i - 1"] by (cases i) simp_all
  qed
qed

lemma prepare_example_ignores_mask_label:
  "prepare_example c d (ex(''mask_label'' := None)) = prepare_example c d ex"
  by (simp add: prepare_example_def)

lemma prepare_ignores_mask_label:
  "prepare_wwm_and_sop_from_examples c draws k (map (\<lambda>ex. ex(''mask_label'' := None)) exs) =
   prepare_wwm_and_sop_from_examples c draws k exs"
  by (induction exs arbitrary: k)
     (simp_all add: prepare_example_ignores_mask_label cong: sum.case_cong)

lemma call_ignores_mask_label:
  "DataCollatorForBertPretraining_call c rnd (map (\<lambda>ex. ex(''mask_label'' := None)) exs) =
   DataCollatorForBertPretraining_call c rnd exs"
  by (simp add: DataCollatorForBertPretraining_call_def prepare_ignores_mask_label)

lemma prepare_example_errors:
  "prepare_example c d ex = Inl e \<Longrightarrow> e = KeyError \<or> e = ValueError"
  by (auto simp: prepare_example_def choose_split_def randrange_def Let_def split_beta
      split: option.splits sum.splits if_splits)

lemma prepare_errors:
  "prepare_wwm_and_sop_from_examples c draws k exs = Inl e \<Longrightarrow> e = KeyError \<or> e = ValueError"
proof (induction exs arbitrary: k)
  case Nil
  then show ?case by simp
next
  case (Cons ex rest)
  show ?case
  proof (cases "prepare_example c (draws k) ex")
    case (Inl e')
    with Cons.prems have "e' = e" by simp
    with Inl prepare_example_errors show ?thesis by blast
  next
    case (Inr out)
    with Cons.prems have "prepare_wwm_and_sop_from_examples c draws (Suc k) rest = Inl e"
      by (simp split: sum.splits)
    then show ?thesis by (rule Cons.IH)
  qed
qed

lemma call_missing_input_ids:
  "ex ''input_ids'' = None \<Longrightarrow> DataCollatorForBertPretraining_call c rnd (ex # rest) = Inl KeyError"
  by (simp add: DataCollatorForBertPretraining_call_def prepare_example_def)

text \<open>
  Claim C6. As amended: a split position that is chosen lies in \<open>[n // 3, n // 3 * 2)\<close>;
  when that range is not empty one is chosen, and every position of the range is chosen
  by some draw; when the range is empty, which is when the chunk has fewer than 3 ids, no
  fallback applies: \<open>random.randrange\<close> raises \<open>ValueError\<close> and so does building the
  example.
\<close>

theorem split_position_in_range:
  "(\<forall>sp. choose_split pk chunk_ids = Inr sp \<longrightarrow>
      int (length chunk_ids) div 3 \<le> sp \<and> sp < int (length chunk_ids) div 3 * 2) \<and>
   (int (length chunk_ids) div 3 < int (length chunk_ids) div 3 * 2 \<longrightarrow>
      (\<exists>sp. choose_split pk chunk_ids = Inr sp)) \<and>
   (\<forall>v. int (length chunk_ids) div 3 \<le> v \<and> v < int (length chunk_ids) div 3 * 2 \<longrightarrow>
      (\<exists>pk'. choose_split pk' chunk_ids = Inr v)) \<and>
   (\<not> int (length chunk_ids) div 3 < int (length chunk_ids) div 3 * 2 \<longrightarrow>
      length chunk_ids < 3 \<and> choose_split pk chunk_ids = Inl ValueError \<and>
      (ex ''input_ids'' = Some chunk_ids \<longrightarrow> prepare_example c d ex = Inl ValueError))"
proof -
  have in_range: "\<forall>sp. choose_split pk chunk_ids = Inr sp \<longrightarrow>
      int (length chunk_ids) div 3 \<le> sp \<and> sp < int (length chunk_ids) div 3 * 2"
    using choose_split_range by blast
  have total: "int (length chunk_ids) div 3 < int (length chunk_ids) div 3 * 2 \<longrightarrow>
      (\<exists>sp. choose_split pk chunk_ids = Inr sp)"
    unfolding choose_split_def Let_def using randrange_total by blast
  have reach: "\<forall>v. int (length chunk_ids) div 3 \<le> v \<and> v < int (length chunk_ids) div 3 * 2 \<longrightarrow>
      (\<exists>pk'. choose_split pk' chunk_ids = Inr v)"
    unfolding choose_split_def Let_def using randrange_reaches by blast
  have empty: "\<not> int (length chunk_ids) div 3 < int (length chunk_ids) div 3 * 2 \<longrightarrow>
      length chunk_ids < 3 \<and> choose_split pk chunk_ids = Inl ValueError \<and>
      (ex ''input_ids'' = Some chunk_ids \<longrightarrow> prepare_example c d ex = Inl ValueError)"
  proof
    assume "\<not> int (length chunk_ids) div 3 < int (length chunk_ids) div 3 * 2"
    then have short: "length chunk_ids < 3" by linarith
    then show "length chunk_ids < 3 \<and> choose_split pk chunk_ids = Inl ValueError \<and>
      (ex ''input_ids'' = Some chunk_ids \<longrightarrow> prepare_example c d ex = Inl ValueError)"
      by (simp add: choose_split_empty prepare_example_short)
  qed
  from in_range total reach empty show ?thesis by (intro conjI)
qed

theorem split_position_in_range_witness:
  "choose_split 7 [1, 2, 3, 4, 5, 6, 7, 8, 9, 10] = Inr 4 \<and>
   int (length [1, 2, 3, 4, 5, 6, 7, 8, 9, 10 :: int]) div 3 \<le> 4 \<and>
   4 < int (length [1, 2, 3, 4, 5, 6, 7, 8, 9, 10 :: int]) div 3 * 2"
proof -
  have c: "choose_split 7 [1, 2, 3, 4, 5, 6, 7, 8, 9, 10] = Inr 4"
    by (simp add: choose_split_def randrange_def)
  from split_position_in_range[of 7 "[1, 2, 3, 4, 5, 6, 7, 8, 9, 10]", THEN conjunct1,
      THEN spec, THEN mp, OF c] c
  show ?thesis by (intro conjI) simp_all
qed

text \<open>
  Claim C6 as stated fails: on a chunk of two ids the whole call raises \<open>ValueError\<close>.
\<close>

theorem short_chunk_no_fallback_counterexample:
  "DataCollatorForBertPretraining_call (sample_collator None) sample_random
     [[''input_ids'' \<mapsto> [1, 2]]] = Inl ValueError"
  by (simp add: DataCollatorForBertPretraining_call_def prepare_example_def choose_split_def
      randrange_def)

text \<open>
  Claim C8. For every example that Stage A builds, the sentence-order label is 1 exactly
  when the reverse branch was taken. When reversed, segment A is
  \<open>chunk[split_position:]\<close> and segment B is \<open>chunk[:split_position]\<close>; otherwise A is
  \<open>chunk[:split_position]\<close>, B is \<open>chunk[split_position:]\<close> and the label is 0. The ids
  and the token types of the example are the tokenizer's for these segments, and the
  slices are the first \<open>split_position\<close> ids and the rest.
\<close>

theorem sentence_order_label_iff_reverse:
  assumes "prepare_wwm_and_sop_from_examples c draws 0 exs = Inr outs" and "i < length exs"
  shows "\<exists>chunk_ids sp.
     (exs ! i) ''input_ids'' = Some chunk_ids \<and>
     choose_split (pick (draws i)) chunk_ids = Inr sp \<and>
     (next_sentence_label (outs ! i) = 1 \<longleftrightarrow> coin (draws i)) \<and>
     (coin (draws i) \<longrightarrow>
        segments (coin (draws i)) sp chunk_ids =
          (slice_from chunk_ids sp, slice_to chunk_ids sp) \<and>
        input_ids (outs ! i) = build_inputs_with_special_tokens (coll_tokenizer c)
          (slice_from chunk_ids sp) (slice_to chunk_ids sp) \<and>
        token_type_ids (outs ! i) = create_token_type_ids_from_sequences (coll_tokenizer c)
          (slice_from chunk_ids sp) (slice_to chunk_ids sp)) \<and>
     (\<not> coin (draws i) \<longrightarrow>
        next_sentence_label (outs ! i) = 0 \<and>
        segments (coin (draws i)) sp chunk_ids =
          (slice_to chunk_ids sp, slice_from chunk_ids sp) \<and>
        input_ids (outs ! i) = build_inputs_with_special_tokens (coll_tokenizer c)
          (slice_to chunk_ids sp) (slice_from chunk_ids sp) \<and>
        token_type_ids (outs ! i) = create_token_type_ids_from_sequences (coll_tokenizer c)
          (slice_to chunk_ids sp) (slice_from chunk_ids sp)) \<and>
     slice_to chunk_ids sp = take (nat sp) chunk_ids \<and>
     slice_from chunk_ids sp = drop (nat sp) chunk_ids"
proof -
  from prepare_nth[OF assms(1)] assms(2)
  have p: "prepare_example c (draws i) (exs ! i) = Inr (outs ! i)" by simp
  then obtain chunk_ids sp where
    1: "(exs ! i) ''input_ids'' = Some chunk_ids" and
    2: "choose_split (pick (draws i)) chunk_ids = Inr sp"
    by (rule prepare_example_Inr)
  from choose_split_range[OF 2] have nonneg: "0 \<le> sp" by linarith
  have built: "outs ! i = \<lparr> input_ids = build_inputs_with_special_tokens (coll_tokenizer c)
                (fst (segments (coin (draws i)) sp chunk_ids))
                (snd (segments (coin (draws i)) sp chunk_ids)),
           token_type_ids = create_token_type_ids_from_sequences (coll_tokenizer c)
                (fst (segments (coin (draws i)) sp chunk_ids))
                (snd (segments (coin (draws i)) sp chunk_ids)),
           next_sentence_label = (if coin (draws i) then 1 else 0),
           mask_label = whole_word_mask (base c) (mask_draw (draws i))
              (convert_ids_to_tokens (coll_tokenizer c)
                (build_inputs_with_special_tokens (coll_tokenizer c)
                  (fst (segments (coin (draws i)) sp chunk_ids))
                  (snd (segments (coin (draws i)) sp chunk_ids)))) \<rparr>"
    using prepare_example_built[of "exs ! i" chunk_ids "draws i" sp c] 1 2 p by simp
  have lab: "next_sentence_label (outs ! i) = (if coin (draws i) then 1 else 0)"
    by (subst built) simp
  have ids: "input_ids (outs ! i) = build_inputs_with_special_tokens (coll_tokenizer c)
      (fst (segments (coin (draws i)) sp chunk_ids)) (snd (segments (coin (draws i)) sp chunk_ids))"
    by (subst built) simp
  have tys: "token_type_ids (outs ! i) = create_token_type_ids_from_sequences (coll_tokenizer c)
      (fst (segments (coin (draws i)) sp chunk_ids)) (snd (segments (coin (draws i)) sp chunk_ids))"
    by (subst built) simp
  show ?thesis
  proof (intro exI conjI)
    show "(exs ! i) ''input_ids'' = Some chunk_ids" by (rule 1)
    show "choose_split (pick (draws i)) chunk_ids = Inr sp" by (rule 2)
    show "next_sentence_label (outs ! i) = 1 \<longleftrightarrow> coin (draws i)" using lab by simp
    show "coin (draws i) \<longrightarrow>
        segments (coin (draws i)) sp chunk_ids =
          (slice_from chunk_ids sp, slice_to chunk_ids sp) \<and>
        input_ids (outs ! i) = build_inputs_with_special_tokens (coll_tokenizer c)
          (slice_from chunk_ids sp) (slice_to chunk_ids sp) \<and>
        token_type_ids (outs ! i) = create_token_type_ids_from_sequences (coll_tokenizer c)
          (slice_from chunk_ids sp) (slice_to chunk_ids sp)"
      using ids tys by (simp add: segments_def)
    show "\<not> coin (draws i) \<longrightarrow>
        next_sentence_label (outs ! i) = 0 \<and>
        segments (coin (draws i)) sp chunk_ids =
          (slice_to chunk_ids sp, slice_from chunk_ids sp) \<and>
        input_ids (outs ! i) = build_inputs_with_special_tokens (coll_tokenizer c)
          (slice_to chunk_ids sp) (slice_from chunk_ids sp) \<and>
        token_type_ids (outs ! i) = create_token_type_ids_from_sequences (coll_tokenizer c)
          (slice_to chunk_ids sp) (slice_from chunk_ids sp)"
      using ids tys lab by (simp add: segments_def)
    show "slice_to chunk_ids sp = take (nat sp) chunk_ids"
      using nonneg by (simp add: slice_to_def)
    show "slice_from chunk_ids sp = drop (nat sp) chunk_ids"
      using nonneg by (simp add: slice_from_def)
  qed
qed

theorem sentence_order_label_iff_reverse_witness:
  "prepare_wwm_and_sop_from_examples (sample_collator None) (example_draws sample_random) 0
      [[''input_ids'' \<mapsto> [1, 2, 3, 4, 5, 6, 7, 8, 9, 10]],
       [''input_ids'' \<mapsto> [11, 12, 13, 14, 15, 16, 17, 18, 19, 20]]] =
     Inr [\<lparr> input_ids = [101, 5, 6, 7, 8, 9, 10, 102, 1, 2, 3, 4, 102],
            token_type_ids = [0, 0, 0, 0, 0, 0, 0, 0, 1, 1, 1, 1, 1],
            next_sentence_label = 1,
            mask_label = [0, 0, 1, 0, 0, 0, 0, 0, 0, 0, 0, 0, 0] \<rparr>,
          \<lparr> input_ids = [101, 11, 12, 13, 14, 102, 15, 16, 17, 18, 19, 20, 102],
            token_type_ids = [0, 0, 0, 0, 0, 0, 1, 1, 1, 1, 1, 1, 1],
            next_sentence_label = 0,
            mask_label = [0, 0, 1, 0, 0, 0, 0, 0, 0, 0, 0, 0, 0] \<rparr>] \<and>
   coin (example_draws sample_random 0) \<and>
   \<not> coin (example_draws sample_random 1) \<and>
   (\<exists>chunk_ids sp.
      [''input_ids'' \<mapsto> [11, 12, 13, 14, 15, 16, 17, 18, 19, 20]] ''input_ids'' = Some chunk_ids \<and>
      choose_split (pick (example_draws sample_random 1)) chunk_ids = Inr sp \<and>
      build_inputs_with_special_tokens sample_tokenizer
        (slice_to chunk_ids sp) (slice_from chunk_ids sp) =
      [101, 11, 12, 13, 14, 102, 15, 16, 17, 18, 19, 20, 102])"
proof -
  let ?c = "sample_collator None"
  let ?draws = "example_draws sample_random"
  let ?exs = "[[''input_ids'' \<mapsto> [1, 2, 3, 4, 5, 6, 7, 8, 9, 10]],
       [''input_ids'' \<mapsto> [11, 12, 13, 14, 15, 16, 17, 18, 19, 20 :: int]]]"
  let ?outs = "[\<lparr> input_ids = [101, 5, 6, 7, 8, 9, 10, 102, 1, 2, 3, 4, 102],
            token_type_ids = [0, 0, 0, 0, 0, 0, 0, 0, 1, 1, 1, 1, 1],
            next_sentence_label = 1,
            mask_label = [0, 0, 1, 0, 0, 0, 0, 0, 0, 0, 0, 0, 0] \<rparr>,
          \<lparr> input_ids = [101, 11, 12, 13, 14, 102, 15, 16, 17, 18, 19, 20, 102],
            token_type_ids = [0, 0, 0, 0, 0, 0, 1, 1, 1, 1, 1, 1, 1],
            next_sentence_label = 0,
            mask_label = [0, 0, 1, 0, 0, 0, 0, 0, 0, 0, 0, 0, 0 :: int] \<rparr>]"
  have run: "prepare_wwm_and_sop_from_examples ?c ?draws 0 ?exs = Inr ?outs"
    by (simp add: prepare_example_def choose_split_def randrange_def segments_def
        slice_to_def slice_from_def sample_collator_def sample_random_def
        sample_tokenizer_def sample_base_def upt_rec)
  have i: "(1::nat) < length ?exs" by simp
  have c0: "coin (?draws 0)" and c1: "\<not> coin (?draws 1)"
    by (simp_all add: sample_random_def)
  have tok: "coll_tokenizer ?c = sample_tokenizer" by (simp add: sample_collator_def)
  from sentence_order_label_iff_reverse[OF run i] c1
  obtain chunk_ids sp where
    "(?exs ! 1) ''input_ids'' = Some chunk_ids"
    "choose_split (pick (?draws 1)) chunk_ids = Inr sp"
    "input_ids (?outs ! 1) = build_inputs_with_special_tokens (coll_tokenizer ?c)
          (slice_to chunk_ids sp) (slice_from chunk_ids sp)"
    by blast
  then have "\<exists>chunk_ids sp.
      [''input_ids'' \<mapsto> [11, 12, 13, 14, 15, 16, 17, 18, 19, 20]] ''input_ids'' = Some chunk_ids \<and>
      choose_split (pick (example_draws sample_random 1)) chunk_ids = Inr sp \<and>
      build_inputs_with_special_tokens sample_tokenizer
        (slice_to chunk_ids sp) (slice_from chunk_ids sp) =
      [101, 11, 12, 13, 14, 102, 15, 16, 17, 18, 19, 20, 102]"
    unfolding tok by (intro exI[of _ chunk_ids] exI[of _ sp]) simp
  with run c0 c1 show ?thesis by (intro conjI)
qed

text \<open>
  Claim C9. As amended: the collator never reads a \<open>mask_label\<close> field of its input:
  removing the field from every example changes nothing about the call, Stage A never
  raises a \<open>SchemaError\<close>, and the one field it requires is \<open>input_ids\<close>, whose absence
  raises \<open>KeyError\<close>.
\<close>

theorem mask_label_not_required:
  "DataCollatorForBertPretraining_call c rnd (map (\<lambda>ex. ex(''mask_label'' := None)) exs) =
     DataCollatorForBertPretraining_call c rnd exs \<and>
   prepare_wwm_and_sop_from_examples c draws k exs \<noteq> Inl SchemaError \<and>
   (ex ''input_ids'' = None \<longrightarrow>
      DataCollatorForBertPretraining_call c rnd (ex # rest) = Inl KeyError)"
proof (intro conjI)
  show "DataCollatorForBertPretraining_call c rnd (map (\<lambda>ex. ex(''mask_label'' := None)) exs) =
     DataCollatorForBertPretraining_call c rnd exs"
    by (rule call_ignores_mask_label)
  show "prepare_wwm_and_sop_from_examples c draws k exs \<noteq> Inl SchemaError"
    using prepare_errors[of c draws k exs SchemaError] by auto
  show "ex ''input_ids'' = None \<longrightarrow>
      DataCollatorForBertPretraining_call c rnd (ex # rest) = Inl KeyError"
    using call_missing_input_ids by blast
qed

theorem mask_label_not_required_witness:
  "[''text'' \<mapsto> [7 :: int]] ''input_ids'' = None \<and>
   DataCollatorForBertPretraining_call (sample_collator None) sample_random
     [[''text'' \<mapsto> [7]], [''input_ids'' \<mapsto> [1, 2, 3]]] = Inl KeyError"
proof -
  have h: "[''text'' \<mapsto> [7 :: int]] ''input_ids'' = None" by simp
  from mask_label_not_required[of "sample_collator None" sample_random "[]" "example_draws sample_random" 0
      "[''text'' \<mapsto> [7]]" "[[''input_ids'' \<mapsto> [1, 2, 3]]]", THEN conjunct2, THEN conjunct2,
      THEN mp, OF h] h
  show ?thesis by (intro conjI)
qed

text \<open>
  Claim C9 as stated fails: a batch whose example has no \<open>mask_label\<close> is collated without an
  exception.
\<close>

theorem mask_label_absent_counterexample:
  "DataCollatorForBertPretraining_call (sample_collator None) sample_random
     [[''input_ids'' \<mapsto> [1, 2, 3, 4, 5, 6, 7, 8, 9, 10]]] =
   Inr [(''input_ids'', Tensor2 13 [[101, 5, 103, 7, 8, 9, 10, 102, 1, 2, 3, 4, 102]]),
        (''token_type_ids'', Tensor2 13 [[0, 0, 0, 0, 0, 0, 0, 0, 1, 1, 1, 1, 1]]),
        (''next_sentence_label'', Tensor1 [1]),
        (''attention_mask'', Tensor2 13 [[1, 1, 1, 1, 1, 1, 1, 1, 1, 1, 1, 1, 1]]),
        (''labels'', Tensor2 13 [[- 100, - 100, 6, - 100, - 100, - 100, - 100, - 100, - 100,
            - 100, - 100, - 100, - 100]])]"
  by (simp add: DataCollatorForBertPretraining_call_def prepare_example_def choose_split_def
      randrange_def segments_def slice_to_def slice_from_def sample_collator_def
      sample_random_def sample_tokenizer_def sample_base_def sample_pad_def pad_right_def
      sample_mask_tokens_def upt_rec)

section \<open>Properties of Stage C\<close>

lemma map2_append_map: "map2 (@) (map f xs) (map g xs) = map (\<lambda>x. f x @ g x) xs"
  by (induction xs) simp_all

lemma map2_append_replicate:
  "map2 (@) rows (replicate (length rows) p) = map (\<lambda>r. r @ p) rows"
  by (induction rows) simp_all

lemma difference_pos:
  assumes "0 < w" and "int s mod w \<noteq> 0"
  shows "0 < (int s div w + 1) * w - int s"
proof -
  have e: "int s div w * w + int s mod w = int s" by (rule div_mult_mod_eq)
  have m: "int s mod w < w" using assms(1) by simp
  have "(int s div w + 1) * w = int s div w * w + w" by (simp add: algebra_simps)
  with e m show ?thesis by linarith
qed

lemma difference_neg:
  assumes "w < 0" and "int s mod w \<noteq> 0"
  shows "(int s div w + 1) * w - int s < 0"
proof -
  have e: "int s div w * w + int s mod w = int s" by (rule div_mult_mod_eq)
  have m: "w < int s mod w" using assms(1) by simp
  have "(int s div w + 1) * w = int s div w * w + w" by (simp add: algebra_simps)
  with e m show ?thesis by linarith
qed

lemma pad_not_divisible:
  assumes "0 < w" and "int s mod w \<noteq> 0"
  shows "pad_to_world_size w pad_id key (Tensor2 s rows) =
     Inr (Tensor2 (s + nat ((int s div w + 1) * w - int s))
       (map (\<lambda>r. r @ replicate (nat ((int s div w + 1) * w - int s))
          (if key = ''labels'' then - 100
           else if key = ''token_type_ids'' then 1
           else if key = ''attention_mask'' then 0
           else pad_id)) rows))"
proof -
  from difference_pos[OF assms] have d: "\<not> (int s div w + 1) * w - int s < 0" by simp
  from assms d show ?thesis
    by (simp add: pad_to_world_size_def Let_def torch_full_def cat2_def map2_append_replicate)
qed

lemma pad_divisible:
  "w \<noteq> 0 \<Longrightarrow> int s mod w = 0 \<Longrightarrow> pad_to_world_size w pad_id key (Tensor2 s rows) = Inr (Tensor2 s rows)"
  by (simp add: pad_to_world_size_def)

lemma pad_zero: "pad_to_world_size 0 pad_id key (Tensor2 s rows) = Inl ZeroDivisionError"
  by (simp add: pad_to_world_size_def)

lemma pad_negative:
  assumes "w < 0" and "int s mod w \<noteq> 0"
  shows "pad_to_world_size w pad_id key (Tensor2 s rows) = Inl RuntimeError"
  using assms difference_neg[OF assms]
  by (simp add: pad_to_world_size_def Let_def torch_full_def)

text \<open>After padding, the sequence length is a multiple of a positive world size.\<close>

lemma pad_multiple:
  assumes "0 < w"
  shows "\<exists>k rows'. pad_to_world_size w pad_id key (Tensor2 s rows) = Inr (Tensor2 (k * nat w) rows')
     \<and> length rows' = length rows"
proof (cases "int s mod w = 0")
  case True
  have "int s div w * w + int s mod w = int s" by (rule div_mult_mod_eq)
  with True have "int s = int s div w * w" by simp
  then have "nat (int s) = nat (int s div w * w)" by simp
  also have "\<dots> = nat (int s div w) * nat w"
    using assms by (simp add: nat_mult_distrib pos_imp_zdiv_nonneg_iff)
  finally have "s = nat (int s div w) * nat w" by simp
  moreover from assms True have "pad_to_world_size w pad_id key (Tensor2 s rows) = Inr (Tensor2 s rows)"
    by (simp add: pad_divisible)
  ultimately show ?thesis by metis
next
  case False
  let ?d = "(int s div w + 1) * w - int s"
  from difference_pos[OF assms False] have dpos: "0 < ?d" .
  have "int (s + nat ?d) = (int s div w + 1) * w" using dpos by simp
  then have "s + nat ?d = nat ((int s div w + 1) * w)" by linarith
  also have "\<dots> = nat (int s div w + 1) * nat w"
    using assms by (simp add: nat_mult_distrib pos_imp_zdiv_nonneg_iff)
  finally have "s + nat ?d = nat (int s div w + 1) * nat w" .
  with pad_not_divisible[OF assms False, of pad_id key rows] show ?thesis
    by (metis length_map)
qed

lemma chunk_multiple:
  assumes "0 < w"
  shows "torch_chunk (Tensor2 (k * w) rows) (int w) =
     Inr (map (\<lambda>i. Tensor2 k (map (\<lambda>r. take k (drop (i * k) r)) rows)) [0..<w])"
proof (cases "k = 0")
  case True
  with assms show ?thesis
    by (simp add: torch_chunk_def Let_def map_replicate_const)
next
  case False
  then have kpos: "0 < k" by simp
  have split: "(k * w + w - 1) div w = k"
  proof (rule div_nat_eqI)
    show "w * k \<le> k * w + w - 1" using assms by (simp add: mult.commute)
    show "k * w + w - 1 < w * Suc k" using assms by (simp add: mult.commute)
  qed
  have count: "(k * w + k - 1) div k = w"
  proof (rule div_nat_eqI)
    show "k * w \<le> k * w + k - 1" using kpos by simp
    show "k * w + k - 1 < k * Suc w" using kpos by simp
  qed
  have piece: "min k (k * w - i * k) = k" if "i < w" for i
  proof -
    from that have "Suc i \<le> w" by simp
    then have "Suc i * k \<le> w * k" by (rule mult_le_mono1)
    then have "k \<le> k * w - i * k" by (simp add: mult.commute)
    then show ?thesis by simp
  qed
  have "map (\<lambda>i. Tensor2 (min k (k * w - i * k)) (map (\<lambda>r. take k (drop (i * k) r)) rows)) [0..<w]
      = map (\<lambda>i. Tensor2 k (map (\<lambda>r. take k (drop (i * k) r)) rows)) [0..<w]"
    by (rule map_cong) (simp_all add: piece)
  with assms kpos split count show ?thesis
    by (simp add: torch_chunk_def Let_def)
qed

lemma shard_pieces:
  assumes "0 < w"
  shows "\<exists>k rows'. pad_to_world_size w pad_id key (Tensor2 s rows) = Inr (Tensor2 (k * nat w) rows') \<and>
     shard_value rank w pad_id key (Tensor2 s rows) =
       py_index (map (\<lambda>i. Tensor2 k (map (\<lambda>r. take k (drop (i * k) r)) rows')) [0..<nat w]) rank"
proof -
  from pad_multiple[OF assms, of pad_id key s rows] obtain k rows' where
    p: "pad_to_world_size w pad_id key (Tensor2 s rows) = Inr (Tensor2 (k * nat w) rows')"
    by blast
  from assms have w: "0 < nat w" "int (nat w) = w" by simp_all
  from chunk_multiple[OF w(1), of k rows'] w(2)
  have "torch_chunk (Tensor2 (k * nat w) rows') w =
     Inr (map (\<lambda>i. Tensor2 k (map (\<lambda>r. take k (drop (i * k) r)) rows')) [0..<nat w])"
    by simp
  with p show ?thesis by (auto simp: shard_value_def)
qed

lemma shard_zero: "shard_value rank 0 pad_id key (Tensor2 s rows) = Inl ZeroDivisionError"
  by (simp add: shard_value_def pad_zero)

lemma shard_negative:
  assumes "w < 0"
  shows "shard_value rank w pad_id key (Tensor2 s rows) = Inl RuntimeError"
proof (cases "int s mod w = 0")
  case True
  with assms pad_divisible[of w s pad_id key rows] show ?thesis
    by (simp add: shard_value_def torch_chunk_def)
next
  case False
  with assms show ?thesis by (simp add: shard_value_def pad_negative)
qed

lemma shard_rank_out_of_range:
  assumes "0 < w" and "w \<le> rank \<or> rank < - w"
  shows "shard_value rank w pad_id key (Tensor2 s rows) = Inl IndexError"
proof -
  from shard_pieces[OF assms(1), of pad_id key s rows rank] obtain k rows' where
    "shard_value rank w pad_id key (Tensor2 s rows) =
       py_index (map (\<lambda>i. Tensor2 k (map (\<lambda>r. take k (drop (i * k) r)) rows')) [0..<nat w]) rank"
    by blast
  with assms show ?thesis by (auto simp: py_index_def)
qed

lemma shard_rank_in_range:
  assumes "0 < w" and "0 \<le> rank" and "rank < w"
  shows "\<exists>k rows'. pad_to_world_size w pad_id key (Tensor2 s rows) = Inr (Tensor2 (k * nat w) rows') \<and>
     shard_value rank w pad_id key (Tensor2 s rows) =
       Inr (Tensor2 k (map (\<lambda>r. take k (drop (nat rank * k) r)) rows'))"
proof -
  from shard_pieces[OF assms(1), of pad_id key s rows rank] obtain k rows' where
    p: "pad_to_world_size w pad_id key (Tensor2 s rows) = Inr (Tensor2 (k * nat w) rows')" and
    s: "shard_value rank w pad_id key (Tensor2 s rows) =
       py_index (map (\<lambda>i. Tensor2 k (map (\<lambda>r. take k (drop (i * k) r)) rows')) [0..<nat w]) rank"
    by blast
  from assms have "nat rank < nat w" by simp
  with assms s have "shard_value rank w pad_id key (Tensor2 s rows) =
       Inr (Tensor2 k (map (\<lambda>r. take k (drop (nat rank * k) r)) rows'))"
    by (simp add: py_index_def)
  with p show ?thesis by blast
qed

lemma rejoin_12:
  assumes "length r = 12"
  shows "take 3 r @ take 3 (drop 3 r) @ take 3 (drop 6 r) @ take 3 (drop 9 r) = (r :: 'a list)"
proof -
  have a: "take 3 (drop 9 r) = drop 9 r" using assms by simp
  have b: "take 3 (drop 6 r) @ drop 9 r = drop 6 r"
    using append_take_drop_id[of 3 "drop 6 r"] by simp
  have c: "take 3 (drop 3 r) @ drop 6 r = drop 3 r"
    using append_take_drop_id[of 3 "drop 3 r"] by simp
  have d: "take 3 r @ drop 3 r = r" by simp
  show ?thesis by (simp only: a b c d)
qed

text \<open>
  One field of sequence length 10 under world size 4: the shards of the four ranks and
  their concatenation.
\<close>

lemma shard_value_round_trip:
  assumes "well_shaped (Tensor2 10 rows)"
  shows "\<exists>padded s0 s1 s2 s3.
     pad_to_world_size 4 pad_id key (Tensor2 10 rows) = Inr (Tensor2 12 padded) \<and>
     well_shaped (Tensor2 12 padded) \<and>
     length padded = length rows \<and>
     map (take 10) padded = rows \<and>
     shard_value 0 4 pad_id key (Tensor2 10 rows) = Inr (Tensor2 3 s0) \<and>
     shard_value 1 4 pad_id key (Tensor2 10 rows) = Inr (Tensor2 3 s1) \<and>
     shard_value 2 4 pad_id key (Tensor2 10 rows) = Inr (Tensor2 3 s2) \<and>
     shard_value 3 4 pad_id key (Tensor2 10 rows) = Inr (Tensor2 3 s3) \<and>
     well_shaped (Tensor2 3 s0) \<and> well_shaped (Tensor2 3 s1) \<and>
     well_shaped (Tensor2 3 s2) \<and> well_shaped (Tensor2 3 s3) \<and>
     torch_cat [Tensor2 3 s0, Tensor2 3 s1, Tensor2 3 s2, Tensor2 3 s3] = Inr (Tensor2 12 padded) \<and>
     Tensor2 12 padded \<noteq> Tensor2 10 rows"
proof -
  let ?fill = "if key = ''labels'' then - 100
           else if key = ''token_type_ids'' then 1
           else if key = ''attention_mask'' then 0
           else pad_id"
  define padded where "padded = map (\<lambda>r. r @ replicate 2 ?fill) rows"
  define piece where "piece i = map (\<lambda>r. take 3 (drop (i * 3) r)) padded" for i :: nat
  from assms have len10: "\<And>r. r \<in> set rows \<Longrightarrow> length r = 10"
    by (simp add: well_shaped_def list_all_iff)
  then have len12: "\<And>r. r \<in> set padded \<Longrightarrow> length r = 12"
    by (auto simp: padded_def)
  have nd: "int 10 mod 4 \<noteq> 0" and w: "(0::int) < 4" by simp_all
  have d: "nat ((int 10 div 4 + 1) * 4 - int 10) = 2" by simp
  have pad: "pad_to_world_size 4 pad_id key (Tensor2 10 rows) = Inr (Tensor2 12 padded)"
    using pad_not_divisible[OF w nd, of pad_id key rows] unfolding d padded_def by simp
  have chunk: "torch_chunk (Tensor2 12 padded) 4 =
      Inr [Tensor2 3 (piece 0), Tensor2 3 (piece 1), Tensor2 3 (piece 2), Tensor2 3 (piece 3)]"
    using chunk_multiple[of 4 3 padded] by (simp add: piece_def upt_rec)
  have shard: "shard_value rank 4 pad_id key (Tensor2 10 rows) =
      py_index [Tensor2 3 (piece 0), Tensor2 3 (piece 1), Tensor2 3 (piece 2), Tensor2 3 (piece 3)] rank"
    for rank
    by (simp add: shard_value_def pad chunk)
  have ws: "well_shaped (Tensor2 3 (piece i))" if "i < 4" for i
    using that len12 by (auto simp: well_shaped_def list_all_iff piece_def)
  have wp: "well_shaped (Tensor2 12 padded)"
    using len12 by (simp add: well_shaped_def list_all_iff)
  have tk: "map (take 10) padded = rows"
    using len10 by (simp add: padded_def map_idI)
  have rejoin: "take 3 (drop 0 r) @ take 3 (drop 3 r) @ take 3 (drop 6 r) @ take 3 (drop 9 r) = r"
    if "r \<in> set padded" for r
    using rejoin_12[OF len12[OF that]] by simp
  have "map (\<lambda>r. take 3 (drop 0 r) @ take 3 (drop 3 r) @ take 3 (drop 6 r) @ take 3 (drop 9 r)) padded
      = map (\<lambda>r. r) padded"
    by (rule map_cong[OF refl]) (rule rejoin)
  then have cat: "torch_cat [Tensor2 3 (piece 0), Tensor2 3 (piece 1), Tensor2 3 (piece 2),
      Tensor2 3 (piece 3)] = Inr (Tensor2 12 padded)"
    by (simp add: cat2_def piece_def map2_append_map)
  show ?thesis
  proof (rule exI[of _ padded], rule exI[of _ "piece 0"], rule exI[of _ "piece 1"],
      rule exI[of _ "piece 2"], rule exI[of _ "piece 3"], intro conjI)
    show "pad_to_world_size 4 pad_id key (Tensor2 10 rows) = Inr (Tensor2 12 padded)" by (rule pad)
    show "well_shaped (Tensor2 12 padded)" by (rule wp)
    show "length padded = length rows" by (simp add: padded_def)
    show "map (take 10) padded = rows" by (rule tk)
    show "shard_value 0 4 pad_id key (Tensor2 10 rows) = Inr (Tensor2 3 (piece 0))"
      by (simp add: shard py_index_def)
    show "shard_value 1 4 pad_id key (Tensor2 10 rows) = Inr (Tensor2 3 (piece 1))"
      by (simp add: shard py_index_def)
    show "shard_value 2 4 pad_id key (Tensor2 10 rows) = Inr (Tensor2 3 (piece 2))"
      by (simp add: shard py_index_def)
    show "shard_value 3 4 pad_id key (Tensor2 10 rows) = Inr (Tensor2 3 (piece 3))"
      by (simp add: shard py_index_def)
    show "well_shaped (Tensor2 3 (piece 0))" by (rule ws) simp
    show "well_shaped (Tensor2 3 (piece 1))" by (rule ws) simp
    show "well_shaped (Tensor2 3 (piece 2))" by (rule ws) simp
    show "well_shaped (Tensor2 3 (piece 3))" by (rule ws) simp
    show "torch_cat [Tensor2 3 (piece 0), Tensor2 3 (piece 1), Tensor2 3 (piece 2),
      Tensor2 3 (piece 3)] = Inr (Tensor2 12 padded)" by (rule cat)
    show "Tensor2 12 padded \<noteq> Tensor2 10 rows" by simp
  qed
qed

subsection \<open>From the call to the shard of one field\<close>

text \<open>
  Stage A reads the tokenizer and the inherited methods only, so a collator with a
  parallel context collates the same full batch as one without, and then shards every
  entry of it with the tokenizer's pad id.
\<close>

lemma prepare_example_cong:
  assumes "coll_tokenizer c = coll_tokenizer c'" and "base c = base c'"
  shows "prepare_example c d ex = prepare_example c' d ex"
  unfolding prepare_example_def assms by (rule refl)

lemma prepare_cong:
  "coll_tokenizer c = coll_tokenizer c' \<Longrightarrow> base c = base c' \<Longrightarrow>
   prepare_wwm_and_sop_from_examples c draws k exs =
   prepare_wwm_and_sop_from_examples c' draws k exs"
  by (induction exs arbitrary: k)
     (simp_all add: prepare_example_cong[of c c'] cong: sum.case_cong)

lemma call_shards_full_batch:
  assumes "parallel_context c = Some ctx" and "local_rank c = Some rank"
    and "local_world_size c = Some w"
    and "parallel_context c0 = None" and tok: "coll_tokenizer c0 = coll_tokenizer c"
    and bs: "base c0 = base c" and "pad_to_multiple_of c0 = pad_to_multiple_of c"
    and full: "DataCollatorForBertPretraining_call c0 rnd exs = Inr full"
  shows "DataCollatorForBertPretraining_call c rnd exs =
     shard_items rank w (coll_pad_token_id c) full"
proof -
  have p: "prepare_wwm_and_sop_from_examples c0 (example_draws rnd) 0 exs =
           prepare_wwm_and_sop_from_examples c (example_draws rnd) 0 exs"
    by (rule prepare_cong[OF tok bs])
  from full assms(1-4,7) show ?thesis
    unfolding DataCollatorForBertPretraining_call_def p tok bs
    by (auto simp: Let_def split: sum.splits prod.splits)
qed

lemma init_fields:
  assumes "DataCollatorForBertPretraining_init b p m multiple pc = Inr c"
  shows "coll_tokenizer c = proc_tokenizer p" and "base c = b"
    and "pad_to_multiple_of c = multiple"
    and "coll_pad_token_id c = pad_token_id (proc_tokenizer p)"
    and "parallel_context c = pc"
    and "local_rank c = map_option get_local_rank pc"
    and "local_world_size c = map_option get_world_size pc"
  using assms by (auto simp: DataCollatorForBertPretraining_init_def split: option.splits)

lemma call_init_sharded:
  assumes c: "DataCollatorForBertPretraining_init b p m multiple
      (Some \<lparr>get_local_rank = rank, get_world_size = w\<rparr>) = Inr c"
    and c0: "DataCollatorForBertPretraining_init b p m multiple None = Inr c0"
    and full: "DataCollatorForBertPretraining_call c0 rnd exs = Inr full"
  shows "DataCollatorForBertPretraining_call c rnd exs =
     shard_items rank w (pad_token_id (proc_tokenizer p)) full"
proof -
  note f = init_fields[OF c] and f0 = init_fields[OF c0]
  have "DataCollatorForBertPretraining_call c rnd exs =
     shard_items rank w (coll_pad_token_id c) full"
  proof (rule call_shards_full_batch[OF _ _ _ _ _ _ _ full])
    show "parallel_context c = Some \<lparr>get_local_rank = rank, get_world_size = w\<rparr>" by (rule f(5))
    show "local_rank c = Some rank" using f(6) by simp
    show "local_world_size c = Some w" using f(7) by simp
    show "parallel_context c0 = None" by (rule f0(5))
    show "coll_tokenizer c0 = coll_tokenizer c" using f(1) f0(1) by simp
    show "base c0 = base c" using f(2) f0(2) by simp
    show "pad_to_multiple_of c0 = pad_to_multiple_of c" using f(3) f0(3) by simp
  qed
  with f(4) show ?thesis by simp
qed

lemma shard_items_nth:
  "shard_items rank w pad_id full = Inr out \<Longrightarrow>
   length out = length full \<and>
   (\<forall>i < length full. fst (out ! i) = fst (full ! i) \<and>
      shard_value rank w pad_id (fst (full ! i)) (snd (full ! i)) = Inr (snd (out ! i)))"
proof (induction full arbitrary: out)
  case Nil
  then show ?case by simp
next
  case (Cons kv rest)
  obtain key val where kv: "kv = (key, val)" by (cases kv)
  from Cons.prems kv obtain v rest' where
    1: "shard_value rank w pad_id key val = Inr v" and
    2: "shard_items rank w pad_id rest = Inr rest'" and
    3: "out = (key, v) # rest'"
    by (auto split: sum.splits)
  from Cons.IH[OF 2] have len: "length rest' = length rest" and
    nth: "\<And>i. i < length rest \<Longrightarrow> fst (rest' ! i) = fst (rest ! i) \<and>
       shard_value rank w pad_id (fst (rest ! i)) (snd (rest ! i)) = Inr (snd (rest' ! i))"
    by auto
  show ?case
  proof (intro conjI allI impI)
    show "length out = length (kv # rest)" using 3 len by simp
  next
    fix i assume "i < length (kv # rest)"
    then show "fst (out ! i) = fst ((kv # rest) ! i)"
      using 3 kv nth[of "i - 1"] by (cases i) simp_all
  next
    fix i assume "i < length (kv # rest)"
    then show "shard_value rank w pad_id (fst ((kv # rest) ! i)) (snd ((kv # rest) ! i)) =
        Inr (snd (out ! i))"
      using 1 3 kv nth[of "i - 1"] by (cases i) simp_all
  qed
qed

lemma shard_value_total:
  assumes "0 < w" and "0 \<le> rank" and "rank < w"
  shows "\<exists>v. shard_value rank w pad_id key val = Inr v"
proof (cases val)
  case (Tensor1 xs)
  then show ?thesis by (simp add: shard_value_def)
next
  case (Tensor2 s rows)
  with shard_rank_in_range[OF assms, of pad_id key s rows] show ?thesis by auto
qed

lemma shard_items_total:
  assumes "0 < w" and "0 \<le> rank" and "rank < w"
  shows "\<exists>out. shard_items rank w pad_id full = Inr out"
proof (induction full)
  case Nil
  then show ?case by simp
next
  case (Cons kv rest)
  obtain key val where kv: "kv = (key, val)" by (cases kv)
  from shard_value_total[OF assms, of pad_id key val] obtain v where
    "shard_value rank w pad_id key val = Inr v" by blast
  with Cons.IH kv show ?case by auto
qed

text \<open>A shard that is returned fixes the sign of the world size and the range of the rank.\<close>

lemma shard_value_Inr:
  assumes "shard_value rank w pad_id key (Tensor2 s rows) = Inr v"
  shows "0 < w \<and> - w \<le> rank \<and> rank < w"
proof -
  have "w \<noteq> 0" using assms shard_zero[of rank pad_id key s rows] by auto
  moreover have "\<not> w < 0" using assms shard_negative[of w rank pad_id key s rows] by auto
  ultimately have w: "0 < w" by simp
  have "\<not> (w \<le> rank \<or> rank < - w)"
    using assms shard_rank_out_of_range[OF w, of rank pad_id key s rows] by auto
  with w show ?thesis by simp
qed

lemma py_index_mod:
  assumes "- int (length xs) \<le> i" and "i < int (length xs)"
  shows "py_index xs i = Inr (xs ! nat (i mod int (length xs)))"
proof (cases "0 \<le> i")
  case True
  with assms show ?thesis by (simp add: py_index_def)
next
  case False
  let ?n = "int (length xs)"
  from False assms have "(i + ?n) mod ?n = i + ?n" by (intro mod_pos_pos_trivial) simp_all
  moreover have "(i + ?n) mod ?n = i mod ?n" by simp
  ultimately have "i mod ?n = ?n + i" by simp
  with False assms show ?thesis by (simp add: py_index_def)
qed

lemma shard_value_padded:
  assumes w: "0 < w" and r: "- w \<le> rank" "rank < w"
  shows "\<exists>k rows'. pad_to_world_size w pad_id key (Tensor2 s rows) = Inr (Tensor2 (k * nat w) rows') \<and>
     shard_value rank w pad_id key (Tensor2 s rows) =
       Inr (Tensor2 k (map (\<lambda>r. take k (drop (nat (rank mod w) * k) r)) rows'))"
proof -
  from shard_pieces[OF w, of pad_id key s rows rank] obtain k rows' where
    p: "pad_to_world_size w pad_id key (Tensor2 s rows) = Inr (Tensor2 (k * nat w) rows')" and
    s: "shard_value rank w pad_id key (Tensor2 s rows) =
       py_index (map (\<lambda>i. Tensor2 k (map (\<lambda>r. take k (drop (i * k) r)) rows')) [0..<nat w]) rank"
    by blast
  let ?pieces = "map (\<lambda>i. Tensor2 k (map (\<lambda>r. take k (drop (i * k) r)) rows')) [0..<nat w]"
  have len: "int (length ?pieces) = w" using w by simp
  have "py_index ?pieces rank = Inr (?pieces ! nat (rank mod int (length ?pieces)))"
    by (rule py_index_mod) (use r len in simp_all)
  also have "nat (rank mod int (length ?pieces)) = nat (rank mod w)" using len by simp
  also have "?pieces ! nat (rank mod w) =
      Tensor2 k (map (\<lambda>r. take k (drop (nat (rank mod w) * k) r)) rows')"
  proof -
    have "nat (rank mod w) < nat w" using w by (simp add: nat_less_iff)
    then show ?thesis by simp
  qed
  finally show ?thesis using p s by auto
qed

text \<open>
  Evaluating the call on the sample collaborators.
\<close>

lemma replicate_2: "replicate 2 x = [x, x]"
  by (simp add: numeral_2_eq_2)

lemma replicate_3: "replicate 3 x = [x, x, x]"
  by (simp add: numeral_3_eq_3)

lemmas sample_call_defs =
  DataCollatorForBertPretraining_call_def prepare_example_def choose_split_def
  randrange_def segments_def slice_to_def slice_from_def sample_collator_def
  sample_random_def sample_tokenizer_def sample_base_def sample_pad_def pad_right_def
  sample_mask_tokens_def upt_rec shard_value_def pad_to_world_size_def torch_full_def
  cat2_def torch_chunk_def py_index_def Let_def replicate_2 replicate_3

text \<open>
  Claim C2. Take a collator built with a sharding configuration of rank \<open>rank\<close> and world
  size \<open>w\<close>, the full batch that the collator built without one collates from the same
  examples and draws, and a 2-D field of that batch whose sequence length \<open>s\<close> is not
  divisible by \<open>w\<close>. If the call returns, then \<open>w\<close> is positive, the rank is a valid
  index, and the entry of the returned batch under the same key is the \<open>rank\<close>-th block
  of \<open>k\<close> columns of the field's rows, each followed by \<open>d > 0\<close> copies of one fill
  value, where \<open>s + d = (s // w + 1) * w = k * w\<close>. The fill value is -100 for
  \<open>labels\<close>, 1 for \<open>token_type_ids\<close>, 0 for \<open>attention_mask\<close> and the pad token id of
  the processor's tokenizer for every other key.
\<close>

theorem shard_padding_fill_values:
  assumes c: "DataCollatorForBertPretraining_init b p m multiple
      (Some \<lparr>get_local_rank = rank, get_world_size = w\<rparr>) = Inr c"
    and c0: "DataCollatorForBertPretraining_init b p m multiple None = Inr c0"
    and full: "DataCollatorForBertPretraining_call c0 rnd exs = Inr full"
    and out: "DataCollatorForBertPretraining_call c rnd exs = Inr out"
    and i: "i < length full"
    and field: "full ! i = (key, Tensor2 s rows)"
    and nd: "int s mod w \<noteq> 0"
  shows "\<exists>d fill k.
     0 < w \<and> - w \<le> rank \<and> rank < w \<and>
     0 < d \<and> int (s + d) = (int s div w + 1) * w \<and> s + d = k * nat w \<and>
     (key = ''labels'' \<longrightarrow> fill = - 100) \<and>
     (key = ''token_type_ids'' \<longrightarrow> fill = 1) \<and>
     (key = ''attention_mask'' \<longrightarrow> fill = 0) \<and>
     (key \<noteq> ''labels'' \<and> key \<noteq> ''token_type_ids'' \<and> key \<noteq> ''attention_mask'' \<longrightarrow>
        fill = pad_token_id (proc_tokenizer p)) \<and>
     pad_to_world_size w (coll_pad_token_id c) key (Tensor2 s rows) =
       Inr (Tensor2 (s + d) (map (\<lambda>r. r @ replicate d fill) rows)) \<and>
     length out = length full \<and>
     out ! i = (key, Tensor2 k (map (\<lambda>r. take k (drop (nat (rank mod w) * k)
                                       (r @ replicate d fill))) rows))"
proof -
  let ?pad = "pad_token_id (proc_tokenizer p)"
  have pid: "coll_pad_token_id c = ?pad" by (rule init_fields(4)[OF c])
  from call_init_sharded[OF c c0 full] out
  have items: "shard_items rank w ?pad full = Inr out" by simp
  from shard_items_nth[OF items] i field
  have len: "length out = length full" and k: "fst (out ! i) = key" and
    sv: "shard_value rank w ?pad key (Tensor2 s rows) = Inr (snd (out ! i))"
    by auto
  from shard_value_Inr[OF sv] have w: "0 < w" and r: "- w \<le> rank" "rank < w" by simp_all
  define d where "d = nat ((int s div w + 1) * w - int s)"
  define fill where "fill = (if key = ''labels'' then - 100
           else if key = ''token_type_ids'' then 1
           else if key = ''attention_mask'' then 0
           else ?pad)"
  from difference_pos[OF w nd] have d: "0 < d" "int (s + d) = (int s div w + 1) * w"
    by (simp_all add: d_def)
  have pd: "pad_to_world_size w ?pad key (Tensor2 s rows) =
           Inr (Tensor2 (s + d) (map (\<lambda>r. r @ replicate d fill) rows))"
    unfolding d_def fill_def by (rule pad_not_divisible[OF w nd])
  have f: "key = ''labels'' \<longrightarrow> fill = - 100" "key = ''token_type_ids'' \<longrightarrow> fill = 1"
       "key = ''attention_mask'' \<longrightarrow> fill = 0"
       "key \<noteq> ''labels'' \<and> key \<noteq> ''token_type_ids'' \<and> key \<noteq> ''attention_mask'' \<longrightarrow>
            fill = ?pad"
    by (simp_all add: fill_def)
  from shard_value_padded[OF w r, of ?pad key s rows] obtain k rows' where
    pk: "pad_to_world_size w ?pad key (Tensor2 s rows) = Inr (Tensor2 (k * nat w) rows')" and
    sk: "shard_value rank w ?pad key (Tensor2 s rows) =
       Inr (Tensor2 k (map (\<lambda>r. take k (drop (nat (rank mod w) * k) r)) rows'))"
    by blast
  from pd pk have eq: "s + d = k * nat w" "rows' = map (\<lambda>r. r @ replicate d fill) rows"
    by simp_all
  from sv sk eq(2)
  have "snd (out ! i) = Tensor2 k (map (\<lambda>r. take k (drop (nat (rank mod w) * k)
                                       (r @ replicate d fill))) rows)"
    by (simp add: comp_def)
  with k have oi: "out ! i = (key, Tensor2 k (map (\<lambda>r. take k (drop (nat (rank mod w) * k)
                                       (r @ replicate d fill))) rows))"
    by (cases "out ! i") simp
  from w r d eq(1) f pd len oi show ?thesis
    unfolding pid by (intro exI[of _ d] exI[of _ fill] exI[of _ k] conjI)
qed

text \<open>
  The statement on a batch of 13 columns at rank 3 of 4: the last shard of
  \<open>token_type_ids\<close> is one original column and three appended 1s.
\<close>

theorem shard_padding_fill_values_witness:
  "DataCollatorForBertPretraining_call (sample_collator None) sample_random
     [[''input_ids'' \<mapsto> [1, 2, 3, 4, 5, 6, 7, 8, 9, 10]]] =
   Inr [(''input_ids'', Tensor2 13 [[101, 5, 103, 7, 8, 9, 10, 102, 1, 2, 3, 4, 102]]),
        (''token_type_ids'', Tensor2 13 [[0, 0, 0, 0, 0, 0, 0, 0, 1, 1, 1, 1, 1]]),
        (''next_sentence_label'', Tensor1 [1]),
        (''attention_mask'', Tensor2 13 [[1, 1, 1, 1, 1, 1, 1, 1, 1, 1, 1, 1, 1]]),
        (''labels'', Tensor2 13 [[- 100, - 100, 6, - 100, - 100, - 100, - 100, - 100, - 100,
            - 100, - 100, - 100, - 100]])] \<and>
   DataCollatorForBertPretraining_call
     (sample_collator (Some \<lparr>get_local_rank = 3, get_world_size = 4\<rparr>)) sample_random
     [[''input_ids'' \<mapsto> [1, 2, 3, 4, 5, 6, 7, 8, 9, 10]]] =
   Inr [(''input_ids'', Tensor2 4 [[102, 0, 0, 0]]),
        (''token_type_ids'', Tensor2 4 [[1, 1, 1, 1]]),
        (''next_sentence_label'', Tensor1 [1]),
        (''attention_mask'', Tensor2 4 [[1, 0, 0, 0]]),
        (''labels'', Tensor2 4 [[- 100, - 100, - 100, - 100]])] \<and>
   (\<exists>d fill k. 0 < d \<and> 13 + d = k * nat 4 \<and> fill = 1 \<and>
      [(''input_ids'', Tensor2 4 [[102, 0, 0, 0]]),
       (''token_type_ids'', Tensor2 4 [[1, 1, 1, 1]]),
       (''next_sentence_label'', Tensor1 [1]),
       (''attention_mask'', Tensor2 4 [[1, 0, 0, 0]]),
       (''labels'', Tensor2 4 [[- 100, - 100, - 100, - 100]])] ! 1 =
      (''token_type_ids'', Tensor2 k (map (\<lambda>r. take k (drop (nat (3 mod 4) * k)
                                       (r @ replicate d fill)))
                                [[0, 0, 0, 0, 0, 0, 0, 0, 1, 1, 1, 1, 1]])))"
proof -
  let ?exs = "[[''input_ids'' \<mapsto> [1, 2, 3, 4, 5, 6, 7, 8, 9, 10 :: int]]]"
  let ?full = "[(''input_ids'', Tensor2 13 [[101, 5, 103, 7, 8, 9, 10, 102, 1, 2, 3, 4, 102]]),
        (''token_type_ids'', Tensor2 13 [[0, 0, 0, 0, 0, 0, 0, 0, 1, 1, 1, 1, 1]]),
        (''next_sentence_label'', Tensor1 [1]),
        (''attention_mask'', Tensor2 13 [[1, 1, 1, 1, 1, 1, 1, 1, 1, 1, 1, 1, 1]]),
        (''labels'', Tensor2 13 [[- 100, - 100, 6, - 100, - 100, - 100, - 100, - 100, - 100,
            - 100, - 100, - 100, - 100]])]"
  let ?out = "[(''input_ids'', Tensor2 4 [[102, 0, 0, 0]]),
        (''token_type_ids'', Tensor2 4 [[1, 1, 1, 1]]),
        (''next_sentence_label'', Tensor1 [1]),
        (''attention_mask'', Tensor2 4 [[1, 0, 0, 0]]),
        (''labels'', Tensor2 4 [[- 100, - 100, - 100, - 100]])]"
  let ?proc = "ProcessorForBertPretraining_init sample_tokenizer 13"
  have c: "DataCollatorForBertPretraining_init sample_base ?proc (15 / 100) None
      (Some \<lparr>get_local_rank = 3, get_world_size = 4\<rparr>) =
      Inr (sample_collator (Some \<lparr>get_local_rank = 3, get_world_size = 4\<rparr>))"
    by (simp add: DataCollatorForBertPretraining_init_def sample_collator_def
        ProcessorForBertPretraining_init_def sample_tokenizer_def)
  have c0: "DataCollatorForBertPretraining_init sample_base ?proc (15 / 100) None None =
      Inr (sample_collator None)"
    by (simp add: DataCollatorForBertPretraining_init_def sample_collator_def
        ProcessorForBertPretraining_init_def sample_tokenizer_def)
  have full: "DataCollatorForBertPretraining_call (sample_collator None) sample_random ?exs =
      Inr ?full"
    by (simp add: sample_call_defs)
  have out: "DataCollatorForBertPretraining_call
      (sample_collator (Some \<lparr>get_local_rank = 3, get_world_size = 4\<rparr>)) sample_random ?exs =
      Inr ?out"
    by (simp add: sample_call_defs)
  have i: "1 < length ?full" by simp
  have field: "?full ! 1 = (''token_type_ids'', Tensor2 13 [[0, 0, 0, 0, 0, 0, 0, 0, 1, 1, 1, 1, 1]])"
    by simp
  have nd: "int 13 mod 4 \<noteq> 0" by simp
  from shard_padding_fill_values[OF c c0 full out i field nd]
  obtain d fill k where
    dpos: "0 < d" and mult: "13 + d = k * nat 4" and
    f: "''token_type_ids'' = ''token_type_ids'' \<longrightarrow> fill = 1" and
    shard: "?out ! 1 = (''token_type_ids'', Tensor2 k (map (\<lambda>r. take k (drop (nat (3 mod 4) * k)
                                       (r @ replicate d fill)))
                                [[0, 0, 0, 0, 0, 0, 0, 0, 1, 1, 1, 1, 1]]))"
    by (elim exE conjE)
  from f have fill: "fill = 1" by simp
  have "\<exists>d fill k. 0 < d \<and> 13 + d = k * nat 4 \<and> fill = 1 \<and>
      ?out ! 1 = (''token_type_ids'', Tensor2 k (map (\<lambda>r. take k (drop (nat (3 mod 4) * k)
                                       (r @ replicate d fill)))
                                [[0, 0, 0, 0, 0, 0, 0, 0, 1, 1, 1, 1, 1]]))"
  proof (rule exI[of _ d], rule exI[of _ fill], rule exI[of _ k], intro conjI)
    show "0 < d" by (rule dpos)
    show "13 + d = k * nat 4" by (rule mult)
    show "fill = 1" by (rule fill)
    show "?out ! 1 = (''token_type_ids'', Tensor2 k (map (\<lambda>r. take k (drop (nat (3 mod 4) * k)
                                       (r @ replicate d fill)))
                                [[0, 0, 0, 0, 0, 0, 0, 0, 1, 1, 1, 1, 1]]))"
      by (rule shard)
  qed
  with full out show ?thesis by (intro conjI)
qed

text \<open>
  Claim C3. Take the collators built with world size 4 and the ranks 0 to 3, and a
  well-shaped 2-D field of sequence length 10 of the full batch (what the collator built
  without a sharding configuration collates from the same examples and draws). Every
  rank's call returns; the field is padded on the right to length 12 with the pad id of
  the processor's tokenizer or the fill value of its key, its first 10 columns being the
  original; the entry each rank returns for the field has sequence length 3; and joining
  the four entries along the sequence dimension in rank order gives the padded tensor,
  which is not the original one.
\<close>

theorem shard_round_trip:
  assumes c0: "DataCollatorForBertPretraining_init b p m multiple None = Inr c0"
    and r0: "DataCollatorForBertPretraining_init b p m multiple
      (Some \<lparr>get_local_rank = 0, get_world_size = 4\<rparr>) = Inr rank0"
    and r1: "DataCollatorForBertPretraining_init b p m multiple
      (Some \<lparr>get_local_rank = 1, get_world_size = 4\<rparr>) = Inr rank1"
    and r2: "DataCollatorForBertPretraining_init b p m multiple
      (Some \<lparr>get_local_rank = 2, get_world_size = 4\<rparr>) = Inr rank2"
    and r3: "DataCollatorForBertPretraining_init b p m multiple
      (Some \<lparr>get_local_rank = 3, get_world_size = 4\<rparr>) = Inr rank3"
    and full: "DataCollatorForBertPretraining_call c0 rnd exs = Inr full"
    and i: "i < length full"
    and field: "full ! i = (key, Tensor2 10 rows)"
    and ws: "well_shaped (Tensor2 10 rows)"
  shows "\<exists>padded out0 out1 out2 out3 s0 s1 s2 s3.
     DataCollatorForBertPretraining_call rank0 rnd exs = Inr out0 \<and>
     DataCollatorForBertPretraining_call rank1 rnd exs = Inr out1 \<and>
     DataCollatorForBertPretraining_call rank2 rnd exs = Inr out2 \<and>
     DataCollatorForBertPretraining_call rank3 rnd exs = Inr out3 \<and>
     out0 ! i = (key, Tensor2 3 s0) \<and> out1 ! i = (key, Tensor2 3 s1) \<and>
     out2 ! i = (key, Tensor2 3 s2) \<and> out3 ! i = (key, Tensor2 3 s3) \<and>
     well_shaped (Tensor2 3 s0) \<and> well_shaped (Tensor2 3 s1) \<and>
     well_shaped (Tensor2 3 s2) \<and> well_shaped (Tensor2 3 s3) \<and>
     pad_to_world_size 4 (pad_token_id (proc_tokenizer p)) key (Tensor2 10 rows) =
       Inr (Tensor2 12 padded) \<and>
     well_shaped (Tensor2 12 padded) \<and>
     length padded = length rows \<and>
     map (take 10) padded = rows \<and>
     torch_cat [Tensor2 3 s0, Tensor2 3 s1, Tensor2 3 s2, Tensor2 3 s3] = Inr (Tensor2 12 padded) \<and>
     Tensor2 12 padded \<noteq> Tensor2 10 rows"
proof -
  let ?pad = "pad_token_id (proc_tokenizer p)"
  from shard_value_round_trip[OF ws, of ?pad key] obtain padded s0 s1 s2 s3 where
    pd: "pad_to_world_size 4 ?pad key (Tensor2 10 rows) = Inr (Tensor2 12 padded)" and
    wp: "well_shaped (Tensor2 12 padded)" and lp: "length padded = length rows" and
    tk: "map (take 10) padded = rows" and
    v0: "shard_value 0 4 ?pad key (Tensor2 10 rows) = Inr (Tensor2 3 s0)" and
    v1: "shard_value 1 4 ?pad key (Tensor2 10 rows) = Inr (Tensor2 3 s1)" and
    v2: "shard_value 2 4 ?pad key (Tensor2 10 rows) = Inr (Tensor2 3 s2)" and
    v3: "shard_value 3 4 ?pad key (Tensor2 10 rows) = Inr (Tensor2 3 s3)" and
    w0: "well_shaped (Tensor2 3 s0)" and w1: "well_shaped (Tensor2 3 s1)" and
    w2: "well_shaped (Tensor2 3 s2)" and w3: "well_shaped (Tensor2 3 s3)" and
    cat: "torch_cat [Tensor2 3 s0, Tensor2 3 s1, Tensor2 3 s2, Tensor2 3 s3] =
      Inr (Tensor2 12 padded)" and
    ne: "Tensor2 12 padded \<noteq> Tensor2 10 rows"
    by (elim exE conjE)
  have rank_call: "\<exists>out. DataCollatorForBertPretraining_call cr rnd exs = Inr out \<and>
      out ! i = (key, Tensor2 3 sr)"
    if init: "DataCollatorForBertPretraining_init b p m multiple
        (Some \<lparr>get_local_rank = rank, get_world_size = 4\<rparr>) = Inr cr"
      and range: "0 \<le> rank" "rank < 4"
      and v: "shard_value rank 4 ?pad key (Tensor2 10 rows) = Inr (Tensor2 3 sr)"
    for cr rank sr
  proof -
    have "(0::int) < 4" by simp
    from shard_items_total[OF this range, of ?pad full] obtain out where
      items: "shard_items rank 4 ?pad full = Inr out" by blast
    with call_init_sharded[OF init c0 full]
    have call: "DataCollatorForBertPretraining_call cr rnd exs = Inr out" by simp
    from shard_items_nth[OF items] i field v
    have "fst (out ! i) = key" and "snd (out ! i) = Tensor2 3 sr" by auto
    then have "out ! i = (key, Tensor2 3 sr)" by (cases "out ! i") simp
    with call show ?thesis by blast
  qed
  from rank_call[OF r0 _ _ v0] obtain out0 where
    o0: "DataCollatorForBertPretraining_call rank0 rnd exs = Inr out0"
        "out0 ! i = (key, Tensor2 3 s0)" by auto
  from rank_call[OF r1 _ _ v1] obtain out1 where
    o1: "DataCollatorForBertPretraining_call rank1 rnd exs = Inr out1"
        "out1 ! i = (key, Tensor2 3 s1)" by auto
  from rank_call[OF r2 _ _ v2] obtain out2 where
    o2: "DataCollatorForBertPretraining_call rank2 rnd exs = Inr out2"
        "out2 ! i = (key, Tensor2 3 s2)" by auto
  from rank_call[OF r3 _ _ v3] obtain out3 where
    o3: "DataCollatorForBertPretraining_call rank3 rnd exs = Inr out3"
        "out3 ! i = (key, Tensor2 3 s3)" by auto
  from o0 o1 o2 o3 w0 w1 w2 w3 pd wp lp tk cat ne show ?thesis
    by (intro exI[of _ padded] exI[of _ out0] exI[of _ out1] exI[of _ out2] exI[of _ out3]
        exI[of _ s0] exI[of _ s1] exI[of _ s2] exI[of _ s3] conjI)
qed

text \<open>
  The statement on a batch of 10 columns, collated from one chunk of 7 ids.
\<close>

theorem shard_round_trip_witness:
  "DataCollatorForBertPretraining_call (sample_collator None) sample_random
     [[''input_ids'' \<mapsto> [1, 2, 3, 4, 5, 6, 7]]] =
   Inr [(''input_ids'', Tensor2 10 [[101, 4, 103, 6, 7, 102, 1, 2, 3, 102]]),
        (''token_type_ids'', Tensor2 10 [[0, 0, 0, 0, 0, 0, 1, 1, 1, 1]]),
        (''next_sentence_label'', Tensor1 [1]),
        (''attention_mask'', Tensor2 10 [[1, 1, 1, 1, 1, 1, 1, 1, 1, 1]]),
        (''labels'', Tensor2 10 [[- 100, - 100, 5, - 100, - 100, - 100, - 100, - 100, - 100,
            - 100]])] \<and>
   well_shaped (Tensor2 10 [[101, 4, 103, 6, 7, 102, 1, 2, 3, 102]]) \<and>
   (\<exists>out0 out1 out2 out3.
      DataCollatorForBertPretraining_call
        (sample_collator (Some \<lparr>get_local_rank = 0, get_world_size = 4\<rparr>)) sample_random
        [[''input_ids'' \<mapsto> [1, 2, 3, 4, 5, 6, 7]]] = Inr out0 \<and>
      DataCollatorForBertPretraining_call
        (sample_collator (Some \<lparr>get_local_rank = 1, get_world_size = 4\<rparr>)) sample_random
        [[''input_ids'' \<mapsto> [1, 2, 3, 4, 5, 6, 7]]] = Inr out1 \<and>
      DataCollatorForBertPretraining_call
        (sample_collator (Some \<lparr>get_local_rank = 2, get_world_size = 4\<rparr>)) sample_random
        [[''input_ids'' \<mapsto> [1, 2, 3, 4, 5, 6, 7]]] = Inr out2 \<and>
      DataCollatorForBertPretraining_call
        (sample_collator (Some \<lparr>get_local_rank = 3, get_world_size = 4\<rparr>)) sample_random
        [[''input_ids'' \<mapsto> [1, 2, 3, 4, 5, 6, 7]]] = Inr out3 \<and>
      out0 ! 0 = (''input_ids'', Tensor2 3 [[101, 4, 103]]) \<and>
      out1 ! 0 = (''input_ids'', Tensor2 3 [[6, 7, 102]]) \<and>
      out2 ! 0 = (''input_ids'', Tensor2 3 [[1, 2, 3]]) \<and>
      out3 ! 0 = (''input_ids'', Tensor2 3 [[102, 0, 0]])) \<and>
   torch_cat [Tensor2 3 [[101, 4, 103]], Tensor2 3 [[6, 7, 102]], Tensor2 3 [[1, 2, 3]],
       Tensor2 3 [[102, 0, 0]]] =
     Inr (Tensor2 12 [[101, 4, 103, 6, 7, 102, 1, 2, 3, 102, 0, 0]])"
proof -
  let ?exs = "[[''input_ids'' \<mapsto> [1, 2, 3, 4, 5, 6, 7 :: int]]]"
  let ?rows = "[[101, 4, 103, 6, 7, 102, 1, 2, 3, 102 :: int]]"
  let ?full = "[(''input_ids'', Tensor2 10 ?rows),
        (''token_type_ids'', Tensor2 10 [[0, 0, 0, 0, 0, 0, 1, 1, 1, 1]]),
        (''next_sentence_label'', Tensor1 [1]),
        (''attention_mask'', Tensor2 10 [[1, 1, 1, 1, 1, 1, 1, 1, 1, 1]]),
        (''labels'', Tensor2 10 [[- 100, - 100, 5, - 100, - 100, - 100, - 100, - 100, - 100,
            - 100]])]"
  let ?proc = "ProcessorForBertPretraining_init sample_tokenizer 13"
  have init: "DataCollatorForBertPretraining_init sample_base ?proc (15 / 100) None pc =
      Inr (sample_collator pc)" for pc
    by (simp add: DataCollatorForBertPretraining_init_def sample_collator_def
        ProcessorForBertPretraining_init_def sample_tokenizer_def)
  have full: "DataCollatorForBertPretraining_call (sample_collator None) sample_random ?exs =
      Inr ?full"
    by (simp add: sample_call_defs)
  have i: "0 < length ?full" by simp
  have field: "?full ! 0 = (''input_ids'', Tensor2 10 ?rows)" by simp
  have ws: "well_shaped (Tensor2 10 ?rows)" by (simp add: well_shaped_def)
  have pid: "pad_token_id (proc_tokenizer ?proc) = 0"
    by (simp add: ProcessorForBertPretraining_init_def sample_tokenizer_def)
  have pad: "pad_to_world_size 4 0 ''input_ids'' (Tensor2 10 ?rows) =
      Inr (Tensor2 12 [[101, 4, 103, 6, 7, 102, 1, 2, 3, 102, 0, 0]])"
    by (simp add: pad_to_world_size_def torch_full_def cat2_def replicate_2)
  have sv: "shard_value 0 4 0 ''input_ids'' (Tensor2 10 ?rows) = Inr (Tensor2 3 [[101, 4, 103]])"
    "shard_value 1 4 0 ''input_ids'' (Tensor2 10 ?rows) = Inr (Tensor2 3 [[6, 7, 102]])"
    "shard_value 2 4 0 ''input_ids'' (Tensor2 10 ?rows) = Inr (Tensor2 3 [[1, 2, 3]])"
    "shard_value 3 4 0 ''input_ids'' (Tensor2 10 ?rows) = Inr (Tensor2 3 [[102, 0, 0]])"
    by (simp_all add: shard_value_def pad torch_chunk_def Let_def upt_rec py_index_def)
  from shard_round_trip[OF init init init init init full i field ws]
  obtain padded out0 out1 out2 out3 s0 s1 s2 s3 where
    c0: "DataCollatorForBertPretraining_call
        (sample_collator (Some \<lparr>get_local_rank = 0, get_world_size = 4\<rparr>)) sample_random ?exs =
        Inr out0" and
    c1: "DataCollatorForBertPretraining_call
        (sample_collator (Some \<lparr>get_local_rank = 1, get_world_size = 4\<rparr>)) sample_random ?exs =
        Inr out1" and
    c2: "DataCollatorForBertPretraining_call
        (sample_collator (Some \<lparr>get_local_rank = 2, get_world_size = 4\<rparr>)) sample_random ?exs =
        Inr out2" and
    c3: "DataCollatorForBertPretraining_call
        (sample_collator (Some \<lparr>get_local_rank = 3, get_world_size = 4\<rparr>)) sample_random ?exs =
        Inr out3" and
    o0: "out0 ! 0 = (''input_ids'', Tensor2 3 s0)" and
    o1: "out1 ! 0 = (''input_ids'', Tensor2 3 s1)" and
    o2: "out2 ! 0 = (''input_ids'', Tensor2 3 s2)" and
    o3: "out3 ! 0 = (''input_ids'', Tensor2 3 s3)" and
    pd: "pad_to_world_size 4 (pad_token_id (proc_tokenizer ?proc)) ''input_ids''
        (Tensor2 10 ?rows) = Inr (Tensor2 12 padded)" and
    cat: "torch_cat [Tensor2 3 s0, Tensor2 3 s1, Tensor2 3 s2, Tensor2 3 s3] =
      Inr (Tensor2 12 padded)"
    by (elim exE conjE)
  note items = call_init_sharded[OF init init full, unfolded pid]
  from c0 items[of 0 4] have i0: "shard_items 0 4 0 ?full = Inr out0" by simp
  from c1 items[of 1 4] have i1: "shard_items 1 4 0 ?full = Inr out1" by simp
  from c2 items[of 2 4] have i2: "shard_items 2 4 0 ?full = Inr out2" by simp
  from c3 items[of 3 4] have i3: "shard_items 3 4 0 ?full = Inr out3" by simp
  from shard_items_nth[OF i0, THEN conjunct2, THEN spec, of 0] sv(1) o0 have s0: "s0 = [[101, 4, 103]]" by simp
  from shard_items_nth[OF i1, THEN conjunct2, THEN spec, of 0] sv(2) o1 have s1: "s1 = [[6, 7, 102]]" by simp
  from shard_items_nth[OF i2, THEN conjunct2, THEN spec, of 0] sv(3) o2 have s2: "s2 = [[1, 2, 3]]" by simp
  from shard_items_nth[OF i3, THEN conjunct2, THEN spec, of 0] sv(4) o3 have s3: "s3 = [[102, 0, 0]]" by simp
  from pd pad have padded: "padded = [[101, 4, 103, 6, 7, 102, 1, 2, 3, 102, 0, 0]]"
    unfolding pid by simp
  have shards: "\<exists>out0 out1 out2 out3.
      DataCollatorForBertPretraining_call
        (sample_collator (Some \<lparr>get_local_rank = 0, get_world_size = 4\<rparr>)) sample_random
        ?exs = Inr out0 \<and>
      DataCollatorForBertPretraining_call
        (sample_collator (Some \<lparr>get_local_rank = 1, get_world_size = 4\<rparr>)) sample_random
        ?exs = Inr out1 \<and>
      DataCollatorForBertPretraining_call
        (sample_collator (Some \<lparr>get_local_rank = 2, get_world_size = 4\<rparr>)) sample_random
        ?exs = Inr out2 \<and>
      DataCollatorForBertPretraining_call
        (sample_collator (Some \<lparr>get_local_rank = 3, get_world_size = 4\<rparr>)) sample_random
        ?exs = Inr out3 \<and>
      out0 ! 0 = (''input_ids'', Tensor2 3 [[101, 4, 103]]) \<and>
      out1 ! 0 = (''input_ids'', Tensor2 3 [[6, 7, 102]]) \<and>
      out2 ! 0 = (''input_ids'', Tensor2 3 [[1, 2, 3]]) \<and>
      out3 ! 0 = (''input_ids'', Tensor2 3 [[102, 0, 0]])"
  proof (rule exI[of _ out0], rule exI[of _ out1], rule exI[of _ out2], rule exI[of _ out3],
      intro conjI)
    show "out0 ! 0 = (''input_ids'', Tensor2 3 [[101, 4, 103]])" using o0 unfolding s0 .
    show "out1 ! 0 = (''input_ids'', Tensor2 3 [[6, 7, 102]])" using o1 unfolding s1 .
    show "out2 ! 0 = (''input_ids'', Tensor2 3 [[1, 2, 3]])" using o2 unfolding s2 .
    show "out3 ! 0 = (''input_ids'', Tensor2 3 [[102, 0, 0]])" using o3 unfolding s3 .
  qed (rule c0 c1 c2 c3)+
  have joined: "torch_cat [Tensor2 3 [[101, 4, 103]], Tensor2 3 [[6, 7, 102]],
      Tensor2 3 [[1, 2, 3]], Tensor2 3 [[102, 0, 0]]] =
     Inr (Tensor2 12 [[101, 4, 103, 6, 7, 102, 1, 2, 3, 102, 0, 0]])"
    using cat unfolding s0 s1 s2 s3 padded .
  from full ws shards joined show ?thesis by (intro conjI)
qed

text \<open>
  Claim C5. As amended: constructing the collator validates nothing: with any local rank
  and world size the constructor returns a collator that stores them as given. A bad
  configuration shows only when a 2-D field is sharded during a call: world size 0 raises
  \<open>ZeroDivisionError\<close>, a negative world size \<open>RuntimeError\<close>, and with a positive world
  size a rank outside \<open>[-world_size, world_size)\<close> raises \<open>IndexError\<close>.
\<close>

theorem init_accepts_any_sharding_configuration:
  "(\<exists>c. DataCollatorForBertPretraining_init b p m multiple
           (Some \<lparr>get_local_rank = rank, get_world_size = w\<rparr>) = Inr c \<and>
        local_rank c = Some rank \<and> local_world_size c = Some w \<and>
        parallel_context c = Some \<lparr>get_local_rank = rank, get_world_size = w\<rparr>) \<and>
   shard_value rank 0 pad_id key (Tensor2 s rows) = Inl ZeroDivisionError \<and>
   (w < 0 \<longrightarrow> shard_value rank w pad_id key (Tensor2 s rows) = Inl RuntimeError) \<and>
   (0 < w \<and> (w \<le> rank \<or> rank < - w) \<longrightarrow>
      shard_value rank w pad_id key (Tensor2 s rows) = Inl IndexError)"
proof (intro conjI)
  show "\<exists>c. DataCollatorForBertPretraining_init b p m multiple
           (Some \<lparr>get_local_rank = rank, get_world_size = w\<rparr>) = Inr c \<and>
        local_rank c = Some rank \<and> local_world_size c = Some w \<and>
        parallel_context c = Some \<lparr>get_local_rank = rank, get_world_size = w\<rparr>"
    by (simp add: DataCollatorForBertPretraining_init_def)
  show "shard_value rank 0 pad_id key (Tensor2 s rows) = Inl ZeroDivisionError"
    by (rule shard_zero)
  show "w < 0 \<longrightarrow> shard_value rank w pad_id key (Tensor2 s rows) = Inl RuntimeError"
    using shard_negative by blast
  show "0 < w \<and> (w \<le> rank \<or> rank < - w) \<longrightarrow>
      shard_value rank w pad_id key (Tensor2 s rows) = Inl IndexError"
    using shard_rank_out_of_range by blast
qed

theorem init_accepts_any_sharding_configuration_witness:
  "(0::int) < 4 \<and> ((4::int) \<le> 4 \<or> (4::int) < - 4) \<and>
   shard_value 4 4 0 ''input_ids'' (Tensor2 10 [[1, 2, 3, 4, 5, 6, 7, 8, 9, 10]]) = Inl IndexError \<and>
   (- 1 :: int) < 0 \<and>
   shard_value 0 (- 1) 0 ''input_ids'' (Tensor2 10 [[1, 2, 3, 4, 5, 6, 7, 8, 9, 10]]) =
     Inl RuntimeError"
proof -
  have h: "(0::int) < 4 \<and> ((4::int) \<le> 4 \<or> (4::int) < - 4)" by simp
  have n: "(- 1 :: int) < 0" by simp
  note t = init_accepts_any_sharding_configuration[THEN conjunct2, THEN conjunct2]
  from t[of 4 4 0 "''input_ids''" 10 "[[1, 2, 3, 4, 5, 6, 7, 8, 9, 10]]", THEN conjunct2,
      THEN mp, OF h]
  have a: "shard_value 4 4 0 ''input_ids'' (Tensor2 10 [[1, 2, 3, 4, 5, 6, 7, 8, 9, 10]]) =
      Inl IndexError" .
  from t[of "- 1" 0 0 "''input_ids''" 10 "[[1, 2, 3, 4, 5, 6, 7, 8, 9, 10]]", THEN conjunct1,
      THEN mp, OF n]
  have b: "shard_value 0 (- 1) 0 ''input_ids'' (Tensor2 10 [[1, 2, 3, 4, 5, 6, 7, 8, 9, 10]]) =
      Inl RuntimeError" .
  from h n a b show ?thesis by (intro conjI) simp_all
qed

text \<open>
  Claim C5 as stated fails: with world size 0 the constructor returns a collator, and the
  exception comes from the call.
\<close>

theorem world_size_zero_constructs_counterexample:
  "DataCollatorForBertPretraining_init sample_base
      (ProcessorForBertPretraining_init sample_tokenizer 13) (15 / 100) None
      (Some \<lparr>get_local_rank = 0, get_world_size = 0\<rparr>) =
     Inr (sample_collator (Some \<lparr>get_local_rank = 0, get_world_size = 0\<rparr>)) \<and>
   DataCollatorForBertPretraining_call
      (sample_collator (Some \<lparr>get_local_rank = 0, get_world_size = 0\<rparr>)) sample_random
      [[''input_ids'' \<mapsto> [1, 2, 3, 4, 5, 6, 7, 8, 9, 10]]] = Inl ZeroDivisionError"
proof (intro conjI)
  show "DataCollatorForBertPretraining_init sample_base
      (ProcessorForBertPretraining_init sample_tokenizer 13) (15 / 100) None
      (Some \<lparr>get_local_rank = 0, get_world_size = 0\<rparr>) =
     Inr (sample_collator (Some \<lparr>get_local_rank = 0, get_world_size = 0\<rparr>))"
    by (simp add: DataCollatorForBertPretraining_init_def sample_collator_def
        ProcessorForBertPretraining_init_def sample_tokenizer_def)
  show "DataCollatorForBertPretraining_call
      (sample_collator (Some \<lparr>get_local_rank = 0, get_world_size = 0\<rparr>)) sample_random
      [[''input_ids'' \<mapsto> [1, 2, 3, 4, 5, 6, 7, 8, 9, 10]]] = Inl ZeroDivisionError"
    by (simp add: DataCollatorForBertPretraining_call_def prepare_example_def choose_split_def
      randrange_def segments_def slice_to_def slice_from_def sample_collator_def
      sample_random_def sample_tokenizer_def sample_base_def sample_pad_def pad_right_def
      sample_mask_tokens_def upt_rec shard_value_def pad_to_world_size_def)
qed

end
